theory Spec2Isabelle
  imports Main
begin

section \<open>django\_migration\_fixture: the data model\<close>

text \<open>
  The module \<^verbatim>\<open>django_migration_fixture/__init__.py\<close> is glue around Django: the
  serializer, the ORM, the post-migrate signal and the database cursor. The embedding
  keeps the module's own control flow and takes what Django computes as parameters
  (record \<open>framework\<close>). Effects are explicit: every function takes the world and
  returns it together with the exception it raised, if any; the world holds the rows of
  each table, the receivers of the \<^verbatim>\<open>post_migrate\<close> signal and a trace of the interactions
  with files, database and signal, in the order in which they happened.
\<close>

text \<open>Attribute values; \<open>ModelState\<close> is the object Django keeps in \<^verbatim>\<open>_state\<close>.\<close>

datatype val = NoneV | IntV int | StrV string | ModelState

type_synonym pydict = "(string \<times> val) list"
type_synonym model = "string \<times> string"
type_synonym row = pydict
type_synonym path = string
type_synonym sql = string

datatype error =
    IndexError
  | IOError
  | DeserializationError
  | IntegrityError
  | DatabaseError
  | LookupError
  | FieldError
  | MultipleObjectsReturned
  | AssertionError
  | FixtureObjectDoesNotExist

text \<open>
  A \<^verbatim>\<open>DeserializedObject\<close>, by what the module reads of it: \<^verbatim>\<open>obj.object._meta.model\<close>,
  \<^verbatim>\<open>obj.object.__class__.__name__\<close> and \<^verbatim>\<open>obj.object.__dict__\<close>. \<open>attrs\<close> holds the
  attributes that \<^verbatim>\<open>Model.__init__\<close> sets for the fields of the model (one for every
  field, \<^verbatim>\<open>None\<close> where the fixture gives no value); the \<^verbatim>\<open>__dict__\<close> of every model instance
  holds \<^verbatim>\<open>_state\<close> besides.
\<close>

record deserialized =
  meta_model :: model
  class_name :: string
  attrs :: pydict

definition obj_dict :: "deserialized \<Rightarrow> pydict" where
  "obj_dict obj = (''_state'', ModelState) # attrs obj"

text \<open>
  A model class of the registry that \<^verbatim>\<open>unload_fixture\<close> is given: its table and the names
  that a query on it accepts as keywords.
\<close>

record model_class =
  model_key :: model
  field_names :: "string list"

type_synonym registry = "string \<Rightarrow> string \<Rightarrow> model_class option"

text \<open>The module \<^verbatim>\<open>app\<close> (\<^verbatim>\<open>__name__\<close>, \<^verbatim>\<open>__path__\<close>) and an \<^verbatim>\<open>AppConfig\<close> (\<^verbatim>\<open>label\<close>).\<close>

record app_module =
  app_name :: string
  app_path :: "string list"

record app_config =
  label :: string

text \<open>The argument \<^verbatim>\<open>fixtures\<close>: one name (a \<^verbatim>\<open>basestring\<close>) or a list of names.\<close>

datatype fixtures_arg = Single string | Many "string list"

text \<open>What the closures returned by \<^verbatim>\<open>fixture\<close> capture.\<close>

record fixture_env =
  env_app :: app_module
  env_fixtures :: "string list"
  fixture_path :: path
  raise_does_not_exist :: bool

datatype event =
    Open_file path
  | Save deserialized
  | Reset_call "model set"
  | Cursor_open
  | Execute sql
  | Cursor_close
  | Connect nat
  | Disconnect nat
  | Receiver_called nat string
  | Get model pydict
  | Delete model row

text \<open>
  \<open>receivers\<close> is \<^verbatim>\<open>signals.post_migrate.receivers\<close>: each \<^verbatim>\<open>signal_handler\<close> closure with the
  identity of its function object; \<open>next_id\<close> is the identity the next function object
  gets.
\<close>

record world =
  db :: "model \<Rightarrow> row list"
  receivers :: "(nat \<times> fixture_env) list"
  next_id :: nat
  trace :: "event list"

type_synonym result = "error option \<times> world"

text \<open>
  What Django and the file system compute: \<open>open_file\<close> is \<^verbatim>\<open>open(path, 'rb')\<close>
  (\<open>None\<close>: the file cannot be opened); \<open>deserialize\<close> is
  \<^verbatim>\<open>serializers.deserialize(format, f, ignorenonexistent=True)\<close> as the items its iterator
  produces, an \<open>Inl\<close> item an exception raised when the iterator gets there; \<open>orm_save\<close>
  is \<^verbatim>\<open>obj.save()\<close>; \<open>sequence_reset_sql\<close> is
  \<^verbatim>\<open>connection.ops.sequence_reset_sql(no_style(), models)\<close>; \<open>execute_ok\<close> tells whether
  \<^verbatim>\<open>cursor.execute(sql)\<close> returns.
\<close>

record framework =
  open_file :: "path \<Rightarrow> string option"
  deserialize :: "string \<Rightarrow> string \<Rightarrow> (error + deserialized) list"
  orm_save :: "deserialized \<Rightarrow> (model \<Rightarrow> row list) \<Rightarrow> error + (model \<Rightarrow> row list)"
  sequence_reset_sql :: "model set \<Rightarrow> sql list"
  execute_ok :: "sql \<Rightarrow> bool"

definition emit :: "event \<Rightarrow> world \<Rightarrow> world" where
  "emit e w = w\<lparr>trace := trace w @ [e]\<rparr>"

section \<open>Paths and formats\<close>

text \<open>\<^verbatim>\<open>posixpath.join(a, b)\<close>.\<close>

definition os_path_join :: "path \<Rightarrow> path \<Rightarrow> path" where
  "os_path_join a b =
     (if take 1 b = ''/'' then b
      else if a = [] \<or> (a \<noteq> [] \<and> last a = CHR ''/'') then a @ b
      else a @ ''/'' @ b)"

text \<open>\<^verbatim>\<open>p.rfind(c)\<close>: the last index of \<open>c\<close>, or \<open>-1\<close>.\<close>

definition rfind :: "string \<Rightarrow> char \<Rightarrow> int" where
  "rfind p c =
     (if c \<in> set p
      then int (length p) - 1 - int (length (takeWhile (\<lambda>x. x \<noteq> c) (rev p)))
      else - 1)"

text \<open>
  \<^verbatim>\<open>os.path.splitext(p)[1]\<close>: from the last dot of the last path component, unless only
  dots come before it in that component.
\<close>

definition splitext_ext :: "path \<Rightarrow> string" where
  "splitext_ext p =
     (let sepIndex = rfind p (CHR ''/'');
          dotIndex = rfind p (CHR ''.'')
      in if dotIndex > sepIndex \<and>
            list_ex (\<lambda>c. c \<noteq> CHR ''.'')
              (take (nat dotIndex - nat (sepIndex + 1)) (drop (nat (sepIndex + 1)) p))
         then drop (nat dotIndex) p
         else [])"

definition get_format :: "string \<Rightarrow> string" where
  "get_format name = drop 1 (splitext_ext name)"

section \<open>reset\_db\_sequences\<close>

fun execute_all :: "framework \<Rightarrow> sql list \<Rightarrow> world \<Rightarrow> result" where
  "execute_all fw [] w = (None, w)"
| "execute_all fw (s # ss) w =
     (if execute_ok fw s then execute_all fw ss (emit (Execute s) w)
      else (Some DatabaseError, w))"

text \<open>The \<^verbatim>\<open>with\<close> block closes the cursor whether the loop raised or not.\<close>

definition reset_db_sequences :: "framework \<Rightarrow> model set \<Rightarrow> world \<Rightarrow> result" where
  "reset_db_sequences fw models w =
     (if models = {} then (None, w)
      else (case execute_all fw (sequence_reset_sql fw models) (emit Cursor_open w) of
              (r, w') \<Rightarrow> (r, emit Cursor_close w')))"

section \<open>fixture and get\_objects\<close>

text \<open>
  \<^verbatim>\<open>fixture(app, fixtures, fixtures_dir, raise_does_not_exist)\<close> up to its \<^verbatim>\<open>return\<close>: the
  environment of the two closures it returns. \<^verbatim>\<open>app.__path__[0]\<close> raises on an empty
  path list.
\<close>

definition fixture :: "app_module \<Rightarrow> fixtures_arg \<Rightarrow> string \<Rightarrow> bool \<Rightarrow> error + fixture_env" where
  "fixture app fixtures fixtures_dir raise_dne =
     (case app_path app of
        [] \<Rightarrow> Inl IndexError
      | p # _ \<Rightarrow>
          Inr \<lparr>env_app = app,
               env_fixtures = (case fixtures of Single s \<Rightarrow> [s] | Many fs \<Rightarrow> fs),
               fixture_path = os_path_join p fixtures_dir,
               raise_does_not_exist = raise_dne\<rparr>)"

text \<open>
  The generator \<^verbatim>\<open>get_objects\<close>, as the steps one iteration takes: opening a file, yielding
  an object, or raising. A raise ends the iteration. The consumer's loop body runs between
  two steps, so a file is opened only after every object before it has been consumed.
\<close>

datatype step = Opened path | Yield deserialized | Raise error

fun yield_all :: "(error + deserialized) list \<Rightarrow> step list \<Rightarrow> step list" where
  "yield_all [] rest = rest"
| "yield_all (Inl e # xs) rest = [Raise e]"
| "yield_all (Inr obj # xs) rest = Yield obj # yield_all xs rest"

fun get_objects_from :: "framework \<Rightarrow> fixture_env \<Rightarrow> string list \<Rightarrow> step list" where
  "get_objects_from fw env [] = []"
| "get_objects_from fw env (name # rest) =
     (case open_file fw (os_path_join (fixture_path env) name) of
        None \<Rightarrow> [Raise IOError]
      | Some f \<Rightarrow>
          Opened (os_path_join (fixture_path env) name) #
          yield_all (deserialize fw (get_format name) f) (get_objects_from fw env rest))"

definition get_objects :: "framework \<Rightarrow> fixture_env \<Rightarrow> step list" where
  "get_objects fw env = get_objects_from fw env (env_fixtures env)"

section \<open>The post\_migrate signal\<close>

text \<open>
  \<^verbatim>\<open>Signal.connect(receiver, weak=False)\<close> appends the receiver unless one with the same
  identity is connected; \<^verbatim>\<open>Signal.disconnect(receiver)\<close> deletes the first receiver with
  that identity.
\<close>

definition connect :: "nat \<Rightarrow> fixture_env \<Rightarrow> world \<Rightarrow> world" where
  "connect h env w =
     emit (Connect h)
       (w\<lparr>receivers :=
            (if h \<in> set (map fst (receivers w)) then receivers w
             else receivers w @ [(h, env)])\<rparr>)"

fun remove_receiver :: "nat \<Rightarrow> (nat \<times> fixture_env) list \<Rightarrow> (nat \<times> fixture_env) list" where
  "remove_receiver h [] = []"
| "remove_receiver h (r # rs) = (if fst r = h then rs else r # remove_receiver h rs)"

definition disconnect :: "nat \<Rightarrow> world \<Rightarrow> world" where
  "disconnect h w = emit (Disconnect h) (w\<lparr>receivers := remove_receiver h (receivers w)\<rparr>)"

section \<open>load\_fixture\<close>

text \<open>The loop of \<^verbatim>\<open>signal_handler\<close>: \<^verbatim>\<open>obj.save()\<close>, then \<^verbatim>\<open>models.add(...)\<close>.\<close>

fun load_objects ::
  "framework \<Rightarrow> step list \<Rightarrow> model set \<Rightarrow> world \<Rightarrow> error option \<times> model set \<times> world" where
  "load_objects fw [] models w = (None, models, w)"
| "load_objects fw (Opened p # ss) models w = load_objects fw ss models (emit (Open_file p) w)"
| "load_objects fw (Raise e # ss) models w = (Some e, models, w)"
| "load_objects fw (Yield obj # ss) models w =
     (case orm_save fw obj (db w) of
        Inl e \<Rightarrow> (Some e, models, w)
      | Inr d \<Rightarrow> load_objects fw ss (insert (meta_model obj) models) (emit (Save obj) (w\<lparr>db := d\<rparr>)))"

text \<open>
  \<^verbatim>\<open>signal_handler(app_config, sender, **kwargs)\<close>; \<open>self\<close> is the identity of the closure,
  which it passes to \<^verbatim>\<open>disconnect\<close>. The trace records the call of \<^verbatim>\<open>reset_db_sequences\<close>
  with its argument.
\<close>

definition signal_handler ::
  "framework \<Rightarrow> fixture_env \<Rightarrow> nat \<Rightarrow> app_config \<Rightarrow> app_config \<Rightarrow> world \<Rightarrow> result" where
  "signal_handler fw env self app_config sender w =
     (if label sender = ''django_migration_fixture'' then
        (if label app_config \<noteq> ''django_migration_fixture'' then (Some AssertionError, w)
         else
           (case load_objects fw (get_objects fw env) {} w of
              (Some e, models, w1) \<Rightarrow> (Some e, w1)
            | (None, models, w1) \<Rightarrow>
                (case reset_db_sequences fw models (emit (Reset_call models) w1) of
                   (Some e, w2) \<Rightarrow> (Some e, w2)
                 | (None, w2) \<Rightarrow> (None, disconnect self w2))))
      else (None, w))"

text \<open>
  \<^verbatim>\<open>load_fixture(app_config, schema_editor)\<close> creates the closure \<^verbatim>\<open>signal_handler\<close>, a new
  function object, and connects it.
\<close>

definition load_fixture :: "fixture_env \<Rightarrow> app_config \<Rightarrow> unit \<Rightarrow> world \<Rightarrow> result" where
  "load_fixture env app_config schema_editor w =
     (None, connect (next_id w) env (w\<lparr>next_id := Suc (next_id w)\<rparr>))"

section \<open>unload\_fixture\<close>

text \<open>The \<^verbatim>\<open>if\<close>/\<^verbatim>\<open>elif\<close>/\<^verbatim>\<open>else\<close> that fills \<^verbatim>\<open>kwargs\<close> from \<^verbatim>\<open>obj.object.__dict__\<close>.\<close>

definition unload_kwargs :: "pydict \<Rightarrow> pydict" where
  "unload_kwargs d =
     (case map_of d ''id'' of
        Some v \<Rightarrow> [(''id'', v)]
      | None \<Rightarrow>
          (case map_of d ''slug'' of
             Some v \<Rightarrow> [(''slug'', v)]
           | None \<Rightarrow> d))"

text \<open>
  \<^verbatim>\<open>model.objects.get(**kwargs)\<close>: a keyword that is not a field of the model raises
  \<^verbatim>\<open>FieldError\<close> before any row is looked at, and \<^verbatim>\<open>_state\<close> is an attribute of the
  instance, never a field. Otherwise the query selects the rows that have each given field
  with the given value: none raises \<^verbatim>\<open>DoesNotExist\<close>, several raise
  \<^verbatim>\<open>MultipleObjectsReturned\<close>. Of these \<^verbatim>\<open>unload_fixture\<close> catches \<^verbatim>\<open>DoesNotExist\<close> only.
  \<^verbatim>\<open>.delete()\<close> removes the row found.
\<close>

definition resolves :: "model_class \<Rightarrow> string \<Rightarrow> bool" where
  "resolves mc k = (k \<noteq> ''_state'' \<and> k \<in> set (field_names mc))"

definition matches :: "pydict \<Rightarrow> row \<Rightarrow> bool" where
  "matches kwargs r = list_all (\<lambda>kv. map_of r (fst kv) = Some (snd kv)) kwargs"

definition delete_row :: "model \<Rightarrow> row \<Rightarrow> world \<Rightarrow> world" where
  "delete_row m r w = emit (Delete m r) (w\<lparr>db := (db w)(m := remove1 r (db w m))\<rparr>)"

text \<open>
  The body of the loop of \<^verbatim>\<open>unload_fixture\<close> for one object; \<open>apps\<close> is
  \<^verbatim>\<open>apps.get_model\<close>, \<open>None\<close> where it raises \<^verbatim>\<open>LookupError\<close>.
\<close>

definition unload_object ::
  "fixture_env \<Rightarrow> registry \<Rightarrow> deserialized \<Rightarrow> world \<Rightarrow> result" where
  "unload_object env apps obj w =
     (case apps (app_name (env_app env)) (class_name obj) of
        None \<Rightarrow> (Some LookupError, w)
      | Some mc \<Rightarrow>
          (if \<not> list_all (\<lambda>kv. resolves mc (fst kv)) (unload_kwargs (obj_dict obj))
           then (Some FieldError, w)
           else
             (case filter (matches (unload_kwargs (obj_dict obj))) (db w (model_key mc)) of
                [] \<Rightarrow>
                  (if \<not> raise_does_not_exist env
                   then (Some FixtureObjectDoesNotExist,
                         emit (Get (model_key mc) (unload_kwargs (obj_dict obj))) w)
                   else (None, emit (Get (model_key mc) (unload_kwargs (obj_dict obj))) w))
              | [r] \<Rightarrow>
                  (None, delete_row (model_key mc) r
                           (emit (Get (model_key mc) (unload_kwargs (obj_dict obj))) w))
              | r # r' # rs \<Rightarrow>
                  (Some MultipleObjectsReturned,
                   emit (Get (model_key mc) (unload_kwargs (obj_dict obj))) w))))"

fun unload_objects ::
  "fixture_env \<Rightarrow> registry \<Rightarrow> step list \<Rightarrow> world \<Rightarrow> result" where
  "unload_objects env apps [] w = (None, w)"
| "unload_objects env apps (Opened p # ss) w = unload_objects env apps ss (emit (Open_file p) w)"
| "unload_objects env apps (Raise e # ss) w = (Some e, w)"
| "unload_objects env apps (Yield obj # ss) w =
     (case unload_object env apps obj w of
        (Some e, w') \<Rightarrow> (Some e, w')
      | (None, w') \<Rightarrow> unload_objects env apps ss w')"

definition unload_fixture ::
  "framework \<Rightarrow> fixture_env \<Rightarrow> registry \<Rightarrow> unit \<Rightarrow> world \<Rightarrow> result" where
  "unload_fixture fw env apps schema_editor w = unload_objects env apps (get_objects fw env) w"

section \<open>Sending the signal, and a run of the process\<close>

text \<open>
  \<^verbatim>\<open>post_migrate.send(sender=app_config, app_config=app_config, ...)\<close> calls the receivers
  that were connected when the send began, in order; an exception of a receiver ends the
  send. The trace records each call of a receiver with the sender's label.
\<close>

fun call_receivers ::
  "framework \<Rightarrow> (nat \<times> fixture_env) list \<Rightarrow> app_config \<Rightarrow> world \<Rightarrow> result" where
  "call_receivers fw [] sender w = (None, w)"
| "call_receivers fw (r # rs) sender w =
     (case signal_handler fw (snd r) (fst r) sender sender
             (emit (Receiver_called (fst r) (label sender)) w) of
        (Some e, w') \<Rightarrow> (Some e, w')
      | (None, w') \<Rightarrow> call_receivers fw rs sender w')"

definition send_post_migrate :: "framework \<Rightarrow> app_config \<Rightarrow> world \<Rightarrow> result" where
  "send_post_migrate fw sender w = call_receivers fw (receivers w) sender w"

text \<open>
  What a process does with the adapter: run a migration forwards, run it backwards, or
  emit \<^verbatim>\<open>post_migrate\<close> for an application. An exception ends the run.
\<close>

datatype action =
    Forward fixture_env app_config
  | Reverse fixture_env registry
  | Post_migrate app_config

fun perform :: "framework \<Rightarrow> action \<Rightarrow> world \<Rightarrow> result" where
  "perform fw (Forward env app_config) w = load_fixture env app_config () w"
| "perform fw (Reverse env apps) w = unload_fixture fw env apps () w"
| "perform fw (Post_migrate sender) w = send_post_migrate fw sender w"

fun run :: "framework \<Rightarrow> action list \<Rightarrow> world \<Rightarrow> result" where
  "run fw [] w = (None, w)"
| "run fw (a # as) w =
     (case perform fw a w of
        (Some e, w') \<Rightarrow> (Some e, w')
      | (None, w') \<Rightarrow> run fw as w')"

section \<open>Notions for the statements\<close>

text \<open>What one iteration of \<^verbatim>\<open>get_objects\<close> yields, and which files it opens.\<close>

fun yields :: "step list \<Rightarrow> deserialized list" where
  "yields [] = []"
| "yields (Opened p # ss) = yields ss"
| "yields (Yield obj # ss) = obj # yields ss"
| "yields (Raise e # ss) = []"

fun opens :: "step list \<Rightarrow> path list" where
  "opens [] = []"
| "opens (Opened p # ss) = p # opens ss"
| "opens (Yield obj # ss) = opens ss"
| "opens (Raise e # ss) = []"

text \<open>The events of a loading loop that runs through an iteration without an exception.\<close>

fun load_events :: "step list \<Rightarrow> event list" where
  "load_events [] = []"
| "load_events (Opened p # ss) = Open_file p # load_events ss"
| "load_events (Yield obj # ss) = Save obj # load_events ss"
| "load_events (Raise e # ss) = []"

definition is_save :: "event \<Rightarrow> bool" where
  "is_save e = (case e of Save obj \<Rightarrow> True | _ \<Rightarrow> False)"

text \<open>The events of a sequence reset: the call, the cursor and the SQL executed.\<close>

definition is_reset :: "event \<Rightarrow> bool" where
  "is_reset e =
     (case e of Reset_call ms \<Rightarrow> True | Cursor_open \<Rightarrow> True | Execute s \<Rightarrow> True
              | Cursor_close \<Rightarrow> True | _ \<Rightarrow> False)"

definition is_unload_event :: "event \<Rightarrow> bool" where
  "is_unload_event e =
     (case e of Open_file p \<Rightarrow> True | Get m k \<Rightarrow> True | Delete m r \<Rightarrow> True | _ \<Rightarrow> False)"

definition new_events :: "world \<Rightarrow> world \<Rightarrow> event list" where
  "new_events w w' = drop (length (trace w)) (trace w')"

text \<open>
  The objects a file holds, up to the first exception of the deserializer, and whether a
  file can be opened and deserialized to its end.
\<close>

fun objects_of :: "(error + deserialized) list \<Rightarrow> deserialized list" where
  "objects_of [] = []"
| "objects_of (Inl e # xs) = []"
| "objects_of (Inr obj # xs) = obj # objects_of xs"

definition file_objects :: "framework \<Rightarrow> fixture_env \<Rightarrow> string \<Rightarrow> deserialized list" where
  "file_objects fw env name =
     (case open_file fw (os_path_join (fixture_path env) name) of
        None \<Rightarrow> []
      | Some f \<Rightarrow> objects_of (deserialize fw (get_format name) f))"

definition file_ok :: "framework \<Rightarrow> fixture_env \<Rightarrow> string \<Rightarrow> bool" where
  "file_ok fw env name =
     (case open_file fw (os_path_join (fixture_path env) name) of
        None \<Rightarrow> False
      | Some f \<Rightarrow> list_all (\<lambda>x. \<not> isl x) (deserialize fw (get_format name) f))"

text \<open>
  \<^verbatim>\<open>list(get_objects())\<close>: an iteration that only collects what is yielded; and \<open>n\<close> such
  iterations one after the other.
\<close>

fun consume :: "step list \<Rightarrow> world \<Rightarrow> error option \<times> deserialized list \<times> world" where
  "consume [] w = (None, [], w)"
| "consume (Opened p # ss) w = consume ss (emit (Open_file p) w)"
| "consume (Yield obj # ss) w = (case consume ss w of (r, objs, w') \<Rightarrow> (r, obj # objs, w'))"
| "consume (Raise e # ss) w = (Some e, [], w)"

fun iterate ::
  "framework \<Rightarrow> fixture_env \<Rightarrow> nat \<Rightarrow> world \<Rightarrow> error option \<times> deserialized list list \<times> world" where
  "iterate fw env 0 w = (None, [], w)"
| "iterate fw env (Suc n) w =
     (case consume (get_objects fw env) w of
        (Some e, objs, w') \<Rightarrow> (Some e, [objs], w')
      | (None, objs, w') \<Rightarrow>
          (case iterate fw env n w' of (r, rest, w'') \<Rightarrow> (r, objs # rest, w'')))"

text \<open>
  The labels of the senders with which the receiver \<open>h\<close> was called, in order; the handler
  runs its load logic at the calls with the label \<^verbatim>\<open>django_migration_fixture\<close>.
\<close>

fun calls_of :: "nat \<Rightarrow> event list \<Rightarrow> string list" where
  "calls_of h [] = []"
| "calls_of h (Receiver_called i s # es) = (if i = h then s # calls_of h es else calls_of h es)"
| "calls_of h (e # es) = calls_of h es"

text \<open>
  What holds of the receivers in every world a process reaches: no identity is connected
  twice, and the identities in use are below the next one to be given out. A handler is
  \<open>live\<close> when it is connected or not created yet.
\<close>

definition wf_world :: "world \<Rightarrow> bool" where
  "wf_world w =
     (distinct (map fst (receivers w)) \<and> list_all (\<lambda>i. i < next_id w) (map fst (receivers w)))"

definition live :: "nat \<Rightarrow> world \<Rightarrow> bool" where
  "live h w = (h \<in> set (map fst (receivers w)) \<or> next_id w \<le> h)"

text \<open>
  What a load pass is expected to do, in the words of the framework alone: the exception
  an iteration ends with, if any, and the tables after saving a list of objects one after
  the other.
\<close>

fun raises :: "step list \<Rightarrow> error option" where
  "raises [] = None"
| "raises (Opened p # ss) = raises ss"
| "raises (Yield obj # ss) = raises ss"
| "raises (Raise e # ss) = Some e"

fun save_all ::
  "framework \<Rightarrow> deserialized list \<Rightarrow> (model \<Rightarrow> row list) \<Rightarrow> error + (model \<Rightarrow> row list)" where
  "save_all fw [] d = Inr d"
| "save_all fw (obj # objs) d =
     (case orm_save fw obj d of Inl e \<Rightarrow> Inl e | Inr d' \<Rightarrow> save_all fw objs d')"

section \<open>An installation to evaluate on\<close>

text \<open>
  The application \<^verbatim>\<open>myapp\<close> with three models and two fixture files. An \<^verbatim>\<open>Egg\<close> has the
  fields \<^verbatim>\<open>id\<close> and \<^verbatim>\<open>name\<close>; a \<^verbatim>\<open>Walk\<close> has the primary key \<^verbatim>\<open>code\<close> and the fields
  \<^verbatim>\<open>slug\<close> and \<^verbatim>\<open>steps\<close>, so its instances have a \<^verbatim>\<open>slug\<close> and no \<^verbatim>\<open>id\<close>; a \<^verbatim>\<open>Sausage\<close> has
  the primary key \<^verbatim>\<open>sku\<close> and the fields \<^verbatim>\<open>kind\<close> and \<^verbatim>\<open>length\<close>, so its instances have
  neither. \<^verbatim>\<open>eggs.json\<close> holds one egg, \<^verbatim>\<open>walks.yaml\<close> a walk and a sausage.
\<close>

definition egg :: deserialized where
  "egg = \<lparr>meta_model = (''myapp'', ''Egg''), class_name = ''Egg'',
          attrs = [(''id'', IntV 1), (''name'', StrV ''fried'')]\<rparr>"

definition walk :: deserialized where
  "walk = \<lparr>meta_model = (''myapp'', ''Walk''), class_name = ''Walk'',
           attrs = [(''code'', StrV ''w1''), (''slug'', StrV ''silly''), (''steps'', IntV 3)]\<rparr>"

definition sausage :: deserialized where
  "sausage = \<lparr>meta_model = (''myapp'', ''Sausage''), class_name = ''Sausage'',
              attrs = [(''sku'', StrV ''s4''), (''kind'', StrV ''pork''), (''length'', IntV 12)]\<rparr>"

definition ex_fw :: framework where
  "ex_fw =
     \<lparr>open_file = (\<lambda>p. if p = ''/srv/myapp/fixtures/eggs.json'' then Some ''E''
                        else if p = ''/srv/myapp/fixtures/walks.yaml'' then Some ''W''
                        else None),
      deserialize = (\<lambda>fmt f. if fmt = ''json'' \<and> f = ''E'' then [Inr egg]
                             else if fmt = ''yaml'' \<and> f = ''W'' then [Inr walk, Inr sausage]
                             else [Inl DeserializationError]),
      orm_save = (\<lambda>obj d. Inr (d(meta_model obj := d (meta_model obj) @ [attrs obj]))),
      sequence_reset_sql = (\<lambda>ms. if (''myapp'', ''Egg'') \<in> ms then [''reset egg'']
                                  else [''reset others'']),
      execute_ok = (\<lambda>s. True)\<rparr>"

definition myapp :: app_module where
  "myapp = \<lparr>app_name = ''myapp'', app_path = [''/srv/myapp'']\<rparr>"

definition ex_env :: "bool \<Rightarrow> fixture_env" where
  "ex_env r = \<lparr>env_app = myapp, env_fixtures = [''eggs.json'', ''walks.yaml''],
               fixture_path = ''/srv/myapp/fixtures'', raise_does_not_exist = r\<rparr>"

text \<open>The adapter for \<^verbatim>\<open>eggs.json\<close> alone.\<close>

definition ex_eggs_env :: "bool \<Rightarrow> fixture_env" where
  "ex_eggs_env r = \<lparr>env_app = myapp, env_fixtures = [''eggs.json''],
                    fixture_path = ''/srv/myapp/fixtures'', raise_does_not_exist = r\<rparr>"

definition ex_apps :: registry where
  "ex_apps a n =
     (if a = ''myapp'' \<and> n = ''Egg''
      then Some \<lparr>model_key = (''myapp'', ''Egg''), field_names = [''id'', ''name'']\<rparr>
      else if a = ''myapp'' \<and> n = ''Walk''
      then Some \<lparr>model_key = (''myapp'', ''Walk''),
                 field_names = [''code'', ''slug'', ''steps'']\<rparr>
      else if a = ''myapp'' \<and> n = ''Sausage''
      then Some \<lparr>model_key = (''myapp'', ''Sausage''),
                 field_names = [''sku'', ''kind'', ''length'']\<rparr>
      else None)"

definition dmf :: app_config where
  "dmf = \<lparr>label = ''django_migration_fixture''\<rparr>"

definition myapp_config :: app_config where
  "myapp_config = \<lparr>label = ''myapp''\<rparr>"

text \<open>A world with empty tables, the world after the fixtures are loaded into it, and a
  world whose rows differ from the fixture's in the fields that are not the lookup key.\<close>

definition ex_world :: world where
  "ex_world = \<lparr>db = (\<lambda>m. []), receivers = [], next_id = 0, trace = []\<rparr>"

definition ex_loaded :: world where
  "ex_loaded =
     \<lparr>db = (\<lambda>m. [])((''myapp'', ''Egg'') := [attrs egg],
                      (''myapp'', ''Walk'') := [attrs walk],
                      (''myapp'', ''Sausage'') := [attrs sausage]),
      receivers = [], next_id = 0,
      trace = [Open_file ''/srv/myapp/fixtures/eggs.json'', Save egg,
               Open_file ''/srv/myapp/fixtures/walks.yaml'', Save walk, Save sausage,
               Reset_call {(''myapp'', ''Egg''), (''myapp'', ''Walk''), (''myapp'', ''Sausage'')},
               Cursor_open, Execute ''reset egg'', Cursor_close, Disconnect 0]\<rparr>"

definition ex_stocked :: world where
  "ex_stocked =
     \<lparr>db = (\<lambda>m. [])
         ((''myapp'', ''Egg'') :=
            [[(''id'', IntV 1), (''name'', StrV ''boiled'')],
             [(''id'', IntV 2), (''name'', StrV ''fried'')]],
          (''myapp'', ''Walk'') :=
            [[(''code'', StrV ''w9''), (''slug'', StrV ''silly''), (''steps'', IntV 5)],
             [(''code'', StrV ''w1''), (''slug'', StrV ''plain''), (''steps'', IntV 3)]],
          (''myapp'', ''Sausage'') :=
            [[(''sku'', StrV ''s3''), (''kind'', StrV ''pork''), (''length'', IntV 20)],
             [(''sku'', StrV ''s4''), (''kind'', StrV ''pork''), (''length'', IntV 12)]]),
      receivers = [], next_id = 0, trace = []\<rparr>"

text \<open>The world after \<^verbatim>\<open>load_fixture\<close> has run in the empty one.\<close>

definition ex_subscribed :: world where
  "ex_subscribed =
     \<lparr>db = (\<lambda>m. []), receivers = [(0, ex_env False)], next_id = 1, trace = [Connect 0]\<rparr>"

section \<open>Evaluating the installation\<close>

lemma ex_fw_simps:
  "open_file ex_fw p =
     (if p = ''/srv/myapp/fixtures/eggs.json'' then Some ''E''
      else if p = ''/srv/myapp/fixtures/walks.yaml'' then Some ''W'' else None)"
  "orm_save ex_fw obj d = Inr (d(meta_model obj := d (meta_model obj) @ [attrs obj]))"
  "sequence_reset_sql ex_fw ms =
     (if (''myapp'', ''Egg'') \<in> ms then [''reset egg''] else [''reset others''])"
  "execute_ok ex_fw s = True"
  by (simp_all add: ex_fw_def)

lemma ex_env_simps:
  "env_app (ex_env r) = myapp" "raise_does_not_exist (ex_env r) = r"
  "env_fixtures (ex_env r) = [''eggs.json'', ''walks.yaml'']"
  "fixture_path (ex_env r) = ''/srv/myapp/fixtures''"
  by (simp_all add: ex_env_def)

lemma ex_eggs_env_simps:
  "env_app (ex_eggs_env r) = myapp" "raise_does_not_exist (ex_eggs_env r) = r"
  "env_fixtures (ex_eggs_env r) = [''eggs.json'']"
  "fixture_path (ex_eggs_env r) = ''/srv/myapp/fixtures''"
  by (simp_all add: ex_eggs_env_def)

lemma ex_formats: "get_format ''eggs.json'' = ''json''" "get_format ''walks.yaml'' = ''yaml''"
  by (simp_all add: get_format_def splitext_ext_def rfind_def)

lemma ex_paths:
  "os_path_join ''/srv/myapp/fixtures'' ''eggs.json'' = ''/srv/myapp/fixtures/eggs.json''"
  "os_path_join ''/srv/myapp/fixtures'' ''walks.yaml'' = ''/srv/myapp/fixtures/walks.yaml''"
  by (simp_all add: os_path_join_def)

lemma ex_get_objects:
  "get_objects ex_fw (ex_env r) =
     [Opened ''/srv/myapp/fixtures/eggs.json'', Yield egg,
      Opened ''/srv/myapp/fixtures/walks.yaml'', Yield walk, Yield sausage]"
  by (simp add: get_objects_def ex_env_simps ex_paths ex_formats ex_fw_def)

lemma ex_eggs_get_objects:
  "get_objects ex_fw (ex_eggs_env r) = [Opened ''/srv/myapp/fixtures/eggs.json'', Yield egg]"
  by (simp add: get_objects_def ex_eggs_env_simps ex_paths ex_formats ex_fw_def)

lemma ex_models:
  "meta_model egg = (''myapp'', ''Egg'')" "meta_model walk = (''myapp'', ''Walk'')"
  "meta_model sausage = (''myapp'', ''Sausage'')"
  by (simp_all add: egg_def walk_def sausage_def)

lemma ex_load_objects:
  "db w = (\<lambda>m. []) \<Longrightarrow>
   load_objects ex_fw (get_objects ex_fw (ex_env r)) {} w =
     (None, {(''myapp'', ''Egg''), (''myapp'', ''Walk''), (''myapp'', ''Sausage'')},
      w\<lparr>db := (\<lambda>m. [])((''myapp'', ''Egg'') := [attrs egg],
                 (''myapp'', ''Walk'') := [attrs walk],
                 (''myapp'', ''Sausage'') := [attrs sausage]),
       trace := trace w @ [Open_file ''/srv/myapp/fixtures/eggs.json'', Save egg,
               Open_file ''/srv/myapp/fixtures/walks.yaml'', Save walk, Save sausage]\<rparr>)"
  by (simp add: ex_get_objects ex_fw_simps ex_models emit_def insert_commute)

lemma ex_signal_handler:
  "signal_handler ex_fw (ex_env r) 0 dmf dmf ex_world = (None, ex_loaded)"
  using ex_load_objects [of ex_world r]
  by (simp add: signal_handler_def dmf_def ex_world_def ex_loaded_def reset_db_sequences_def
      ex_fw_simps emit_def disconnect_def)

section \<open>The trace of a load pass\<close>

lemma load_objects_ok:
  "load_objects fw ss ms w = (None, ms', w') \<Longrightarrow>
     trace w' = trace w @ load_events ss \<and> ms' = ms \<union> meta_model ` set (yields ss) \<and>
     receivers w' = receivers w \<and> next_id w' = next_id w"
  by (induction fw ss ms w rule: load_objects.induct) (auto simp: emit_def split: sum.splits)

lemma execute_all_ok:
  "execute_all fw ss w = (None, w') \<Longrightarrow> w' = w\<lparr>trace := trace w @ map Execute ss\<rparr>"
  by (induction fw ss w rule: execute_all.induct) (auto simp: emit_def split: if_splits)

lemma reset_db_sequences_ok:
  "reset_db_sequences fw ms w = (None, w') \<Longrightarrow>
     w' = w\<lparr>trace := trace w @
              (if ms = {} then []
               else Cursor_open # map Execute (sequence_reset_sql fw ms) @ [Cursor_close])\<rparr>"
  by (auto simp: reset_db_sequences_def emit_def split: if_splits prod.splits
      dest!: execute_all_ok)

lemma filter_save_load_events: "filter is_save (load_events ss) = map Save (yields ss)"
  by (induction ss rule: load_events.induct) (simp_all add: is_save_def)

lemma filter_reset_load_events: "filter is_reset (load_events ss) = []"
  by (induction ss rule: load_events.induct) (simp_all add: is_reset_def)

lemma filter_reset_executes: "filter is_reset (map Execute ss) = map Execute ss"
  by (induction ss) (simp_all add: is_reset_def)

lemma filter_save_executes: "filter is_save (map Execute ss) = []"
  by (induction ss) (simp_all add: is_save_def)

lemma signal_handler_parts:
  assumes "signal_handler fw env h cfg sender w = (None, w')"
    and "label sender = ''django_migration_fixture''"
  shows "\<exists>ms w1 w2.
           load_objects fw (get_objects fw env) {} w = (None, ms, w1) \<and>
           reset_db_sequences fw ms (emit (Reset_call ms) w1) = (None, w2) \<and>
           w' = disconnect h w2"
  using assms by (auto simp: signal_handler_def split: if_splits prod.splits option.splits)

lemma signal_handler_ok:
  assumes "signal_handler fw env h cfg sender w = (None, w')"
    and "label sender = ''django_migration_fixture''"
  shows "trace w' = trace w @ load_events (get_objects fw env) @
           [Reset_call (meta_model ` set (yields (get_objects fw env)))] @
           (if yields (get_objects fw env) = [] then []
            else Cursor_open #
                 map Execute
                   (sequence_reset_sql fw (meta_model ` set (yields (get_objects fw env)))) @
                 [Cursor_close]) @
           [Disconnect h]"
proof -
  from signal_handler_parts [OF assms] obtain ms w1 w2 where
    l: "load_objects fw (get_objects fw env) {} w = (None, ms, w1)" and
    r: "reset_db_sequences fw ms (emit (Reset_call ms) w1) = (None, w2)" and
    d: "w' = disconnect h w2"
    by blast
  from load_objects_ok [OF l] have t1: "trace w1 = trace w @ load_events (get_objects fw env)"
    and ms: "ms = meta_model ` set (yields (get_objects fw env))" by simp_all
  from reset_db_sequences_ok [OF r] have t2:
    "trace w2 = trace w1 @ [Reset_call ms] @
       (if ms = {} then []
        else Cursor_open # map Execute (sequence_reset_sql fw ms) @ [Cursor_close])"
    by (simp add: emit_def)
  have e: "(ms = {}) = (yields (get_objects fw env) = [])" by (simp add: ms)
  show ?thesis
    unfolding d by (simp add: disconnect_def emit_def t2 t1 e) (simp add: ms)
qed

section \<open>The claims\<close>

text \<open>
  C3. A load pass that completes has saved the objects of the iteration, in its order, then
  called \<^verbatim>\<open>reset_db_sequences\<close> once, with the set of the models of the objects saved; no
  reset event comes before the call, no save after it, and the SQL executed is the reset
  SQL of that set (none when nothing was saved).
\<close>

theorem sequence_reset_once_after_all_saves:
  assumes "signal_handler fw env h cfg sender w = (None, w')"
    and "label sender = ''django_migration_fixture''"
  shows "\<exists>pre post.
           trace w' = trace w @ pre @
             [Reset_call (meta_model ` set (yields (get_objects fw env)))] @ post \<and>
           filter is_save pre = map Save (yields (get_objects fw env)) \<and>
           filter is_reset pre = [] \<and>
           filter is_save post = [] \<and>
           filter is_reset post =
             (if yields (get_objects fw env) = [] then []
              else Cursor_open #
                   map Execute
                     (sequence_reset_sql fw (meta_model ` set (yields (get_objects fw env)))) @
                   [Cursor_close])"
proof -
  let ?sql = "if yields (get_objects fw env) = [] then []
              else Cursor_open #
                   map Execute
                     (sequence_reset_sql fw (meta_model ` set (yields (get_objects fw env)))) @
                   [Cursor_close]"
  have "trace w' = trace w @ load_events (get_objects fw env) @
          [Reset_call (meta_model ` set (yields (get_objects fw env)))] @ (?sql @ [Disconnect h])"
    using signal_handler_ok [OF assms] by simp
  moreover have "filter is_save (?sql @ [Disconnect h]) = []"
    by (simp add: filter_save_executes) (simp add: is_save_def)
  moreover have "filter is_reset (?sql @ [Disconnect h]) = ?sql"
    by (simp add: filter_reset_executes) (simp add: is_reset_def)
  ultimately show ?thesis
    using filter_save_load_events filter_reset_load_events by blast
qed

theorem sequence_reset_once_after_all_saves_witness:
  "signal_handler ex_fw (ex_env False) 0 dmf dmf ex_world = (None, ex_loaded) \<and>
   label dmf = ''django_migration_fixture'' \<and>
   yields (get_objects ex_fw (ex_env False)) = [egg, walk, sausage] \<and>
   (\<exists>pre post.
      trace ex_loaded = trace ex_world @ pre @
        [Reset_call {(''myapp'', ''Egg''), (''myapp'', ''Walk''), (''myapp'', ''Sausage'')}] @ post \<and>
      filter is_save pre = [Save egg, Save walk, Save sausage] \<and>
      filter is_reset pre = [] \<and>
      filter is_save post = [] \<and>
      filter is_reset post = [Cursor_open, Execute ''reset egg'', Cursor_close])"
proof -
  have l: "label dmf = ''django_migration_fixture''" by (simp add: dmf_def)
  show ?thesis
    using sequence_reset_once_after_all_saves [OF ex_signal_handler l, of False] ex_signal_handler l
    by (simp add: ex_get_objects ex_models ex_fw_simps)
qed

text \<open>
  C10. With an empty set of models \<^verbatim>\<open>reset_db_sequences\<close> returns at once: the world is
  the one it was called in, so no cursor was opened and no SQL executed.
\<close>

theorem reset_db_sequences_empty_noop: "reset_db_sequences fw {} w = (None, w)"
  by (simp add: reset_db_sequences_def)

text \<open>
  C8. A single fixture name gives the environment that the list of that one name gives, so
  the closures \<^verbatim>\<open>load_fixture\<close> and \<^verbatim>\<open>unload_fixture\<close> are the same in both cases; the
  fixtures of that environment are the one-element list.
\<close>

theorem single_fixture_name_normalized:
  "fixture app (Single name) fixtures_dir r = fixture app (Many [name]) fixtures_dir r \<and>
   (case fixture app (Single name) fixtures_dir r of
      Inl e \<Rightarrow> app_path app = []
    | Inr env \<Rightarrow> env_fixtures env = [name])"
  by (simp add: fixture_def split: list.split)

text \<open>
  C5. \<^verbatim>\<open>load_fixture\<close> raises nothing, leaves every table as it was and adds to the trace
  the connection of its handler only: no file is opened and nothing is saved. In a world
  without other receivers, a later \<^verbatim>\<open>post_migrate\<close> is what runs the handler.
\<close>

theorem load_fixture_only_subscribes:
  "fst (load_fixture env cfg se w) = None \<and>
   db (snd (load_fixture env cfg se w)) = db w \<and>
   trace (snd (load_fixture env cfg se w)) = trace w @ [Connect (next_id w)] \<and>
   (receivers w = [] \<longrightarrow>
      receivers (snd (load_fixture env cfg se w)) = [(next_id w, env)] \<and>
      send_post_migrate fw sender (snd (load_fixture env cfg se w)) =
        signal_handler fw env (next_id w) sender sender
          (emit (Receiver_called (next_id w) (label sender)) (snd (load_fixture env cfg se w))))"
  by (auto simp: load_fixture_def connect_def emit_def send_post_migrate_def
      split: prod.splits option.splits)

theorem load_fixture_only_subscribes_witness:
  "receivers ex_world = [] \<and>
   fst (load_fixture (ex_env False) myapp_config () ex_world) = None \<and>
   db (snd (load_fixture (ex_env False) myapp_config () ex_world)) = db ex_world \<and>
   trace (snd (load_fixture (ex_env False) myapp_config () ex_world)) = [Connect 0] \<and>
   receivers (snd (load_fixture (ex_env False) myapp_config () ex_world)) = [(0, ex_env False)] \<and>
   trace (snd (send_post_migrate ex_fw dmf (snd (load_fixture (ex_env False) myapp_config () ex_world)))) =
     [Connect 0, Receiver_called 0 ''django_migration_fixture'',
      Open_file ''/srv/myapp/fixtures/eggs.json'', Save egg,
      Open_file ''/srv/myapp/fixtures/walks.yaml'', Save walk, Save sausage,
      Reset_call {(''myapp'', ''Egg''), (''myapp'', ''Walk''), (''myapp'', ''Sausage'')},
      Cursor_open, Execute ''reset egg'', Cursor_close, Disconnect 0]"
proof -
  have r: "receivers ex_world = []" by (simp add: ex_world_def)
  have n: "next_id ex_world = 0" "trace ex_world = []" by (simp_all add: ex_world_def)
  have w: "emit (Receiver_called 0 (label dmf)) (snd (load_fixture (ex_env False) myapp_config () ex_world))
     = \<lparr>db = (\<lambda>m. []), receivers = [(0, ex_env False)], next_id = Suc 0,
         trace = [Connect 0, Receiver_called 0 ''django_migration_fixture'']\<rparr>"
    by (simp add: load_fixture_def connect_def emit_def ex_world_def dmf_def)
  have h: "trace (snd (signal_handler ex_fw (ex_env False) 0 dmf dmf
     (emit (Receiver_called 0 (label dmf)) (snd (load_fixture (ex_env False) myapp_config () ex_world))))) =
     [Connect 0, Receiver_called 0 ''django_migration_fixture'',
      Open_file ''/srv/myapp/fixtures/eggs.json'', Save egg,
      Open_file ''/srv/myapp/fixtures/walks.yaml'', Save walk, Save sausage,
      Reset_call {(''myapp'', ''Egg''), (''myapp'', ''Walk''), (''myapp'', ''Sausage'')},
      Cursor_open, Execute ''reset egg'', Cursor_close, Disconnect 0]"
    unfolding w
    by (simp add: signal_handler_def dmf_def ex_load_objects reset_db_sequences_def
        ex_fw_simps emit_def disconnect_def)
  show ?thesis
    using load_fixture_only_subscribes [of "ex_env False" myapp_config "()" ex_world ex_fw dmf] r n h
    by simp
qed

section \<open>The handler and the sender\<close>

lemma signal_handler_other_sender:
  "label sender \<noteq> ''django_migration_fixture'' \<Longrightarrow>
     signal_handler fw env h cfg sender w = (None, w)"
  by (simp add: signal_handler_def)

lemma signal_handler_assertion:
  "label sender = ''django_migration_fixture'' \<Longrightarrow>
   label cfg \<noteq> ''django_migration_fixture'' \<Longrightarrow>
     signal_handler fw env h cfg sender w = (Some AssertionError, w)"
  by (simp add: signal_handler_def)

lemma load_objects_runs:
  "raises ss = None \<Longrightarrow> save_all fw (yields ss) (db w) = Inr d \<Longrightarrow>
     load_objects fw ss ms w =
       (None, ms \<union> meta_model ` set (yields ss),
        w\<lparr>db := d, trace := trace w @ load_events ss\<rparr>)"
  by (induction fw ss ms w rule: load_objects.induct)
     (auto simp: emit_def split: sum.splits)

lemma execute_all_runs:
  "list_all (execute_ok fw) ss \<Longrightarrow>
     execute_all fw ss w = (None, w\<lparr>trace := trace w @ map Execute ss\<rparr>)"
  by (induction fw ss w rule: execute_all.induct) (simp_all add: emit_def)

lemma reset_db_sequences_runs:
  "list_all (execute_ok fw) (sequence_reset_sql fw ms) \<Longrightarrow>
     reset_db_sequences fw ms w =
       (None, w\<lparr>trace := trace w @
                  (if ms = {} then []
                   else Cursor_open # map Execute (sequence_reset_sql fw ms) @ [Cursor_close])\<rparr>)"
  by (simp add: reset_db_sequences_def execute_all_runs emit_def)

lemma signal_handler_runs:
  assumes "label sender = ''django_migration_fixture''"
    and "label cfg = ''django_migration_fixture''"
    and "raises (get_objects fw env) = None"
    and "save_all fw (yields (get_objects fw env)) (db w) = Inr d"
    and "list_all (execute_ok fw)
           (sequence_reset_sql fw (meta_model ` set (yields (get_objects fw env))))"
  shows "signal_handler fw env h cfg sender w =
     (None,
      w\<lparr>db := d,
         receivers := remove_receiver h (receivers w),
         trace := trace w @ load_events (get_objects fw env) @
           [Reset_call (meta_model ` set (yields (get_objects fw env)))] @
           (if yields (get_objects fw env) = [] then []
            else Cursor_open #
                 map Execute
                   (sequence_reset_sql fw (meta_model ` set (yields (get_objects fw env)))) @
                 [Cursor_close]) @
           [Disconnect h]\<rparr>)"
proof -
  let ?ms = "meta_model ` set (yields (get_objects fw env))"
  have l: "load_objects fw (get_objects fw env) {} w =
      (None, ?ms, w\<lparr>db := d, trace := trace w @ load_events (get_objects fw env)\<rparr>)"
    using load_objects_runs [OF assms(3,4), of "{}"] by simp
  have e: "(?ms = {}) = (yields (get_objects fw env) = [])" by simp
  show ?thesis
    using assms(1,2)
    by (simp add: signal_handler_def l reset_db_sequences_runs [OF assms(5)] emit_def
        disconnect_def e)
qed

text \<open>
  C2, as stated, fails: the handler of the adapter for \<^verbatim>\<open>myapp\<close> loads when the sender is
  the application \<^verbatim>\<open>django_migration_fixture\<close>, which is not \<^verbatim>\<open>myapp\<close>, and does nothing
  when the sender is \<^verbatim>\<open>myapp\<close> itself.
\<close>

theorem handler_loads_for_other_application:
  "app_name (env_app (ex_env False)) = ''myapp'' \<and>
   label dmf = ''django_migration_fixture'' \<and>
   new_events ex_world (snd (signal_handler ex_fw (ex_env False) 0 dmf dmf ex_world)) =
     [Open_file ''/srv/myapp/fixtures/eggs.json'', Save egg,
      Open_file ''/srv/myapp/fixtures/walks.yaml'', Save walk, Save sausage,
      Reset_call {(''myapp'', ''Egg''), (''myapp'', ''Walk''), (''myapp'', ''Sausage'')},
      Cursor_open, Execute ''reset egg'', Cursor_close, Disconnect 0] \<and>
   label myapp_config = ''myapp'' \<and>
   signal_handler ex_fw (ex_env False) 0 myapp_config myapp_config ex_world = (None, ex_world)"
  by (simp add: ex_signal_handler new_events_def ex_env_simps)
     (simp add: ex_world_def ex_loaded_def myapp_def dmf_def myapp_config_def signal_handler_def)

text \<open>
  C2, amended. Whatever application the adapter was made for: for a sender whose label is
  not \<^verbatim>\<open>django_migration_fixture\<close> the handler does not run its load logic, it leaves the
  world as it is and raises nothing. For a sender with that label the assertion on
  \<^verbatim>\<open>app_config\<close> is the only thing before the load: with another label there it raises
  \<^verbatim>\<open>AssertionError\<close> in the unchanged world, and with the same label it loads; when no
  step of the iteration, no save and no reset statement raises, it returns with every
  object saved in order, the sequences reset and itself disconnected.
\<close>

theorem handler_loads_only_for_django_migration_fixture:
  "(label sender \<noteq> ''django_migration_fixture'' \<longrightarrow>
      signal_handler fw env h cfg sender w = (None, w)) \<and>
   (label sender = ''django_migration_fixture'' \<and> label cfg \<noteq> ''django_migration_fixture'' \<longrightarrow>
      signal_handler fw env h cfg sender w = (Some AssertionError, w)) \<and>
   (label sender = ''django_migration_fixture'' \<and> label cfg = ''django_migration_fixture'' \<and>
    raises (get_objects fw env) = None \<and>
    save_all fw (yields (get_objects fw env)) (db w) = Inr d \<and>
    list_all (execute_ok fw)
      (sequence_reset_sql fw (meta_model ` set (yields (get_objects fw env)))) \<longrightarrow>
      fst (signal_handler fw env h cfg sender w) = None \<and>
      db (snd (signal_handler fw env h cfg sender w)) = d \<and>
      trace (snd (signal_handler fw env h cfg sender w)) =
        trace w @ load_events (get_objects fw env) @
        [Reset_call (meta_model ` set (yields (get_objects fw env)))] @
        (if yields (get_objects fw env) = [] then []
         else Cursor_open #
              map Execute
                (sequence_reset_sql fw (meta_model ` set (yields (get_objects fw env)))) @
              [Cursor_close]) @
        [Disconnect h])"
proof (intro conjI impI)
  assume "label sender \<noteq> ''django_migration_fixture''"
  then show "signal_handler fw env h cfg sender w = (None, w)"
    by (rule signal_handler_other_sender)
next
  assume "label sender = ''django_migration_fixture'' \<and> label cfg \<noteq> ''django_migration_fixture''"
  then show "signal_handler fw env h cfg sender w = (Some AssertionError, w)"
    by (simp add: signal_handler_assertion)
next
  assume a: "label sender = ''django_migration_fixture'' \<and>
    label cfg = ''django_migration_fixture'' \<and>
    raises (get_objects fw env) = None \<and>
    save_all fw (yields (get_objects fw env)) (db w) = Inr d \<and>
    list_all (execute_ok fw)
      (sequence_reset_sql fw (meta_model ` set (yields (get_objects fw env))))"
  then have r: "signal_handler fw env h cfg sender w =
     (None,
      w\<lparr>db := d,
         receivers := remove_receiver h (receivers w),
         trace := trace w @ load_events (get_objects fw env) @
           [Reset_call (meta_model ` set (yields (get_objects fw env)))] @
           (if yields (get_objects fw env) = [] then []
            else Cursor_open #
                 map Execute
                   (sequence_reset_sql fw (meta_model ` set (yields (get_objects fw env)))) @
                 [Cursor_close]) @
           [Disconnect h]\<rparr>)"
    by (intro signal_handler_runs) simp_all
  show "fst (signal_handler fw env h cfg sender w) = None" by (simp add: r)
  show "db (snd (signal_handler fw env h cfg sender w)) = d" by (simp add: r)
  show "trace (snd (signal_handler fw env h cfg sender w)) =
        trace w @ load_events (get_objects fw env) @
        [Reset_call (meta_model ` set (yields (get_objects fw env)))] @
        (if yields (get_objects fw env) = [] then []
         else Cursor_open #
              map Execute
                (sequence_reset_sql fw (meta_model ` set (yields (get_objects fw env)))) @
              [Cursor_close]) @
        [Disconnect h]"
    by (simp add: r)
qed

lemma ex_save_all:
  "save_all ex_fw [egg, walk, sausage] (\<lambda>m. []) =
     Inr ((\<lambda>m. [])((''myapp'', ''Egg'') := [attrs egg],
                    (''myapp'', ''Walk'') := [attrs walk],
                    (''myapp'', ''Sausage'') := [attrs sausage]))"
  by (simp add: ex_fw_simps ex_models)

theorem handler_loads_only_for_django_migration_fixture_witness:
  "label myapp_config \<noteq> ''django_migration_fixture'' \<and>
   signal_handler ex_fw (ex_env False) 0 myapp_config myapp_config ex_world = (None, ex_world) \<and>
   label dmf = ''django_migration_fixture'' \<and>
   signal_handler ex_fw (ex_env False) 0 myapp_config dmf ex_world =
     (Some AssertionError, ex_world) \<and>
   raises (get_objects ex_fw (ex_env False)) = None \<and>
   save_all ex_fw (yields (get_objects ex_fw (ex_env False))) (db ex_world) =
     Inr (db ex_loaded) \<and>
   list_all (execute_ok ex_fw)
     (sequence_reset_sql ex_fw (meta_model ` set (yields (get_objects ex_fw (ex_env False))))) \<and>
   fst (signal_handler ex_fw (ex_env False) 0 dmf dmf ex_world) = None \<and>
   db (snd (signal_handler ex_fw (ex_env False) 0 dmf dmf ex_world)) = db ex_loaded \<and>
   trace (snd (signal_handler ex_fw (ex_env False) 0 dmf dmf ex_world)) =
     [Open_file ''/srv/myapp/fixtures/eggs.json'', Save egg,
      Open_file ''/srv/myapp/fixtures/walks.yaml'', Save walk, Save sausage,
      Reset_call {(''myapp'', ''Egg''), (''myapp'', ''Walk''), (''myapp'', ''Sausage'')},
      Cursor_open, Execute ''reset egg'', Cursor_close, Disconnect 0]"
proof -
  have l: "label myapp_config \<noteq> ''django_migration_fixture''"
    "label dmf = ''django_migration_fixture''"
    by (simp_all add: myapp_config_def dmf_def)
  have r: "raises (get_objects ex_fw (ex_env False)) = None"
    by (simp add: ex_get_objects)
  have s: "save_all ex_fw (yields (get_objects ex_fw (ex_env False))) (db ex_world) =
     Inr (db ex_loaded)"
    using ex_save_all by (simp add: ex_get_objects ex_world_def ex_loaded_def)
  have x: "list_all (execute_ok ex_fw)
     (sequence_reset_sql ex_fw (meta_model ` set (yields (get_objects ex_fw (ex_env False)))))"
    by (simp add: ex_fw_simps)
  show ?thesis
    using handler_loads_only_for_django_migration_fixture
            [of myapp_config ex_fw "ex_env False" 0 myapp_config ex_world "db ex_loaded"]
          handler_loads_only_for_django_migration_fixture
            [of dmf ex_fw "ex_env False" 0 myapp_config ex_world "db ex_loaded"]
          handler_loads_only_for_django_migration_fixture
            [of dmf ex_fw "ex_env False" 0 dmf ex_world "db ex_loaded"]
          l r s x
    by (simp add: ex_get_objects ex_models ex_fw_simps ex_world_def insert_commute)
qed

section \<open>Unloading\<close>

lemma matches_eq:
  "matches kwargs = (\<lambda>r. list_all (\<lambda>kv. map_of r (fst kv) = Some (snd kv)) kwargs)"
  by (rule ext) (simp add: matches_def)

lemma obj_dict_lookup:
  "k \<noteq> ''_state'' \<Longrightarrow> map_of (obj_dict obj) k = map_of (attrs obj) k"
  "map_of (obj_dict obj) ''_state'' = Some ModelState"
  by (simp_all add: obj_dict_def)

text \<open>
  The first two branches: with an \<^verbatim>\<open>id\<close> in the dictionary of the object the query has that
  key alone, and the one row with that \<^verbatim>\<open>id\<close> is deleted whatever its other fields; with
  no \<^verbatim>\<open>id\<close> but a \<^verbatim>\<open>slug\<close>, the same with the \<^verbatim>\<open>slug\<close>.
\<close>

lemma unload_object_by_id:
  assumes "apps (app_name (env_app env)) (class_name obj) = Some mc"
    and "map_of (obj_dict obj) ''id'' = Some v"
    and "''id'' \<in> set (field_names mc)"
    and "filter (\<lambda>r. map_of r ''id'' = Some v) (db w (model_key mc)) = [r]"
  shows "unload_object env apps obj w =
     (None, w\<lparr>db := (db w)(model_key mc := remove1 r (db w (model_key mc))),
              trace := trace w @ [Get (model_key mc) [(''id'', v)], Delete (model_key mc) r]\<rparr>)"
proof -
  have k: "unload_kwargs (obj_dict obj) = [(''id'', v)]"
    using assms(2) by (simp add: unload_kwargs_def)
  have f: "filter (matches [(''id'', v)]) (db w (model_key mc)) = [r]"
    using assms(4) by (simp add: matches_eq)
  show ?thesis
    using assms(1,3) by (simp add: unload_object_def k f resolves_def delete_row_def emit_def)
qed

lemma unload_object_by_slug:
  assumes "apps (app_name (env_app env)) (class_name obj) = Some mc"
    and "map_of (obj_dict obj) ''id'' = None"
    and "map_of (obj_dict obj) ''slug'' = Some v"
    and "''slug'' \<in> set (field_names mc)"
    and "filter (\<lambda>r. map_of r ''slug'' = Some v) (db w (model_key mc)) = [r]"
  shows "unload_object env apps obj w =
     (None, w\<lparr>db := (db w)(model_key mc := remove1 r (db w (model_key mc))),
              trace := trace w @ [Get (model_key mc) [(''slug'', v)], Delete (model_key mc) r]\<rparr>)"
proof -
  have k: "unload_kwargs (obj_dict obj) = [(''slug'', v)]"
    using assms(2,3) by (simp add: unload_kwargs_def)
  have f: "filter (matches [(''slug'', v)]) (db w (model_key mc)) = [r]"
    using assms(5) by (simp add: matches_eq)
  show ?thesis
    using assms(1,4) by (simp add: unload_object_def k f resolves_def delete_row_def emit_def)
qed

text \<open>
  The third branch: with neither, the keywords are the whole dictionary, \<^verbatim>\<open>_state\<close>
  included, and the query raises \<^verbatim>\<open>FieldError\<close>; nothing is looked up or deleted.
\<close>

lemma unload_object_whole_dict:
  assumes "apps (app_name (env_app env)) (class_name obj) = Some mc"
    and "map_of (obj_dict obj) ''id'' = None"
    and "map_of (obj_dict obj) ''slug'' = None"
  shows "unload_object env apps obj w = (Some FieldError, w)"
proof -
  have k: "unload_kwargs (obj_dict obj) = (''_state'', ModelState) # attrs obj"
    using assms(2,3) by (simp add: unload_kwargs_def) (simp add: obj_dict_def)
  show ?thesis
    using assms(1) by (simp add: unload_object_def k resolves_def)
qed

lemma ex_stocked_db:
  "db ex_stocked (''myapp'', ''Egg'') =
     [[(''id'', IntV 1), (''name'', StrV ''boiled'')], [(''id'', IntV 2), (''name'', StrV ''fried'')]]"
  "db ex_stocked (''myapp'', ''Walk'') =
     [[(''code'', StrV ''w9''), (''slug'', StrV ''silly''), (''steps'', IntV 5)],
      [(''code'', StrV ''w1''), (''slug'', StrV ''plain''), (''steps'', IntV 3)]]"
  "db ex_stocked (''myapp'', ''Sausage'') =
     [[(''sku'', StrV ''s3''), (''kind'', StrV ''pork''), (''length'', IntV 20)],
      [(''sku'', StrV ''s4''), (''kind'', StrV ''pork''), (''length'', IntV 12)]]"
  "trace ex_stocked = []"
  by (simp_all add: ex_stocked_def)

lemma ex_names:
  "app_name myapp = ''myapp''" "class_name egg = ''Egg''" "class_name walk = ''Walk''"
  "class_name sausage = ''Sausage''"
  by (simp_all add: myapp_def egg_def walk_def sausage_def)

lemma ex_apps_simps:
  "ex_apps ''myapp'' ''Egg'' =
     Some \<lparr>model_key = (''myapp'', ''Egg''), field_names = [''id'', ''name'']\<rparr>"
  "ex_apps ''myapp'' ''Walk'' =
     Some \<lparr>model_key = (''myapp'', ''Walk''), field_names = [''code'', ''slug'', ''steps'']\<rparr>"
  "ex_apps ''myapp'' ''Sausage'' =
     Some \<lparr>model_key = (''myapp'', ''Sausage''), field_names = [''sku'', ''kind'', ''length'']\<rparr>"
  by (simp_all add: ex_apps_def)

lemma ex_obj_dicts:
  "obj_dict egg = [(''_state'', ModelState), (''id'', IntV 1), (''name'', StrV ''fried'')]"
  "obj_dict walk =
     [(''_state'', ModelState), (''code'', StrV ''w1''), (''slug'', StrV ''silly''),
      (''steps'', IntV 3)]"
  "obj_dict sausage =
     [(''_state'', ModelState), (''sku'', StrV ''s4''), (''kind'', StrV ''pork''),
      (''length'', IntV 12)]"
  by (simp_all add: obj_dict_def egg_def walk_def sausage_def)

text \<open>
  C6, evaluated on a stocked database. The egg has an \<^verbatim>\<open>id\<close>: the row with that \<^verbatim>\<open>id\<close> is
  deleted, though its name differs, and the row with the egg's name stays. The walk has
  no \<^verbatim>\<open>id\<close> but a \<^verbatim>\<open>slug\<close>: the row with that \<^verbatim>\<open>slug\<close> is deleted, and the row with the
  walk's primary key stays. The sausage has neither, and the table holds a row with
  exactly its field values: \<^verbatim>\<open>FieldError\<close> is raised and the row stays.
\<close>

theorem unload_whole_dict_raises_field_error:
  "map_of (obj_dict egg) ''id'' = Some (IntV 1) \<and>
   unload_object (ex_env True) ex_apps egg ex_stocked =
     (None,
      ex_stocked
        \<lparr>db := (db ex_stocked)
                 ((''myapp'', ''Egg'') := [[(''id'', IntV 2), (''name'', StrV ''fried'')]]),
         trace := [Get (''myapp'', ''Egg'') [(''id'', IntV 1)],
                   Delete (''myapp'', ''Egg'') [(''id'', IntV 1), (''name'', StrV ''boiled'')]]\<rparr>) \<and>
   map_of (obj_dict walk) ''id'' = None \<and>
   map_of (obj_dict walk) ''slug'' = Some (StrV ''silly'') \<and>
   unload_object (ex_env True) ex_apps walk ex_stocked =
     (None,
      ex_stocked
        \<lparr>db := (db ex_stocked)
                 ((''myapp'', ''Walk'') :=
                    [[(''code'', StrV ''w1''), (''slug'', StrV ''plain''), (''steps'', IntV 3)]]),
         trace := [Get (''myapp'', ''Walk'') [(''slug'', StrV ''silly'')],
                   Delete (''myapp'', ''Walk'')
                     [(''code'', StrV ''w9''), (''slug'', StrV ''silly''), (''steps'', IntV 5)]]\<rparr>) \<and>
   map_of (obj_dict sausage) ''id'' = None \<and>
   map_of (obj_dict sausage) ''slug'' = None \<and>
   attrs sausage \<in> set (db ex_stocked (''myapp'', ''Sausage'')) \<and>
   unload_object (ex_env True) ex_apps sausage ex_stocked = (Some FieldError, ex_stocked)"
proof -
  have e: "unload_object (ex_env True) ex_apps egg ex_stocked =
     (None,
      ex_stocked
        \<lparr>db := (db ex_stocked)
                 ((''myapp'', ''Egg'') := [[(''id'', IntV 2), (''name'', StrV ''fried'')]]),
         trace := [Get (''myapp'', ''Egg'') [(''id'', IntV 1)],
                   Delete (''myapp'', ''Egg'') [(''id'', IntV 1), (''name'', StrV ''boiled'')]]\<rparr>)"
    by (simp add: unload_object_def ex_env_simps ex_names ex_apps_simps ex_obj_dicts
        unload_kwargs_def resolves_def matches_def ex_stocked_db delete_row_def emit_def)
  have k: "unload_object (ex_env True) ex_apps walk ex_stocked =
     (None,
      ex_stocked
        \<lparr>db := (db ex_stocked)
                 ((''myapp'', ''Walk'') :=
                    [[(''code'', StrV ''w1''), (''slug'', StrV ''plain''), (''steps'', IntV 3)]]),
         trace := [Get (''myapp'', ''Walk'') [(''slug'', StrV ''silly'')],
                   Delete (''myapp'', ''Walk'')
                     [(''code'', StrV ''w9''), (''slug'', StrV ''silly''), (''steps'', IntV 5)]]\<rparr>)"
    by (simp add: unload_object_def ex_env_simps ex_names ex_apps_simps ex_obj_dicts
        unload_kwargs_def resolves_def matches_def ex_stocked_db delete_row_def emit_def)
  have g: "unload_object (ex_env True) ex_apps sausage ex_stocked = (Some FieldError, ex_stocked)"
    by (simp add: unload_object_def ex_env_simps ex_names ex_apps_simps ex_obj_dicts
        unload_kwargs_def resolves_def)
  have a: "attrs sausage \<in> set (db ex_stocked (''myapp'', ''Sausage''))"
    by (simp add: ex_stocked_db sausage_def)
  show ?thesis
    by (simp add: e k g a) (simp add: ex_obj_dicts)
qed

lemma ex_unload_egg_missing:
  assumes "db w (''myapp'', ''Egg'') = []"
  shows "unload_object (ex_env r) ex_apps egg w =
           (if r then None else Some FixtureObjectDoesNotExist,
            emit (Get (''myapp'', ''Egg'') [(''id'', IntV 1)]) w)"
    and "unload_object (ex_eggs_env r) ex_apps egg w =
           (if r then None else Some FixtureObjectDoesNotExist,
            emit (Get (''myapp'', ''Egg'') [(''id'', IntV 1)]) w)"
  using assms
  by (simp_all add: unload_object_def ex_env_simps ex_eggs_env_simps ex_names ex_apps_simps
      ex_obj_dicts unload_kwargs_def resolves_def)

text \<open>
  C1, evaluated: unloading from empty tables raises \<^verbatim>\<open>FixtureObjectDoesNotExist\<close> at the
  first object when \<^verbatim>\<open>raise_does_not_exist\<close> is \<^verbatim>\<open>False\<close>, for the adapter of both files and
  for the adapter of \<^verbatim>\<open>eggs.json\<close> alone; when it is \<^verbatim>\<open>True\<close>, unloading \<^verbatim>\<open>eggs.json\<close> passes
  over the absent row and runs to the end, raising nothing.
\<close>

theorem unload_missing_row_flag_inverted:
  "raise_does_not_exist (ex_env False) = False \<and>
   unload_fixture ex_fw (ex_env False) ex_apps () ex_world =
     (Some FixtureObjectDoesNotExist,
      ex_world\<lparr>trace := [Open_file ''/srv/myapp/fixtures/eggs.json'',
                          Get (''myapp'', ''Egg'') [(''id'', IntV 1)]]\<rparr>) \<and>
   raise_does_not_exist (ex_eggs_env False) = False \<and>
   unload_fixture ex_fw (ex_eggs_env False) ex_apps () ex_world =
     (Some FixtureObjectDoesNotExist,
      ex_world\<lparr>trace := [Open_file ''/srv/myapp/fixtures/eggs.json'',
                          Get (''myapp'', ''Egg'') [(''id'', IntV 1)]]\<rparr>) \<and>
   raise_does_not_exist (ex_eggs_env True) = True \<and>
   unload_fixture ex_fw (ex_eggs_env True) ex_apps () ex_world =
     (None,
      ex_world\<lparr>trace := [Open_file ''/srv/myapp/fixtures/eggs.json'',
                          Get (''myapp'', ''Egg'') [(''id'', IntV 1)]]\<rparr>)"
  by (simp add: unload_fixture_def ex_get_objects ex_eggs_get_objects ex_unload_egg_missing
      emit_def ex_world_def ex_env_simps ex_eggs_env_simps)

section \<open>The stream of get\_objects\<close>

lemma yields_yield_all:
  "list_all (\<lambda>x. \<not> isl x) xs \<Longrightarrow> yields (yield_all xs rest) = objects_of xs @ yields rest"
  by (induction xs rest rule: yield_all.induct) simp_all

lemma opens_yield_all:
  "list_all (\<lambda>x. \<not> isl x) xs \<Longrightarrow> opens (yield_all xs rest) = opens rest"
  by (induction xs rest rule: yield_all.induct) simp_all

lemma raise_free_yield_all:
  "list_all (\<lambda>x. \<not> isl x) xs \<Longrightarrow>
   list_all (\<lambda>s. case s of Raise e \<Rightarrow> False | _ \<Rightarrow> True) rest \<Longrightarrow>
   list_all (\<lambda>s. case s of Raise e \<Rightarrow> False | _ \<Rightarrow> True) (yield_all xs rest)"
  by (induction xs rest rule: yield_all.induct) simp_all

lemma get_objects_from_ok:
  "list_all (file_ok fw env) names \<Longrightarrow>
     yields (get_objects_from fw env names) = concat (map (file_objects fw env) names) \<and>
     opens (get_objects_from fw env names) = map (os_path_join (fixture_path env)) names \<and>
     list_all (\<lambda>s. case s of Raise e \<Rightarrow> False | _ \<Rightarrow> True) (get_objects_from fw env names)"
  by (induction names)
     (auto simp: file_ok_def file_objects_def yields_yield_all opens_yield_all
        raise_free_yield_all split: option.splits)

lemma consume_ok:
  "list_all (\<lambda>s. case s of Raise e \<Rightarrow> False | _ \<Rightarrow> True) ss \<Longrightarrow>
     consume ss w = (None, yields ss, w\<lparr>trace := trace w @ map Open_file (opens ss)\<rparr>)"
  by (induction ss w rule: consume.induct) (simp_all add: emit_def)

lemma iterate_ok:
  "list_all (\<lambda>s. case s of Raise e \<Rightarrow> False | _ \<Rightarrow> True) (get_objects fw env) \<Longrightarrow>
     iterate fw env n w =
       (None, replicate n (yields (get_objects fw env)),
        w\<lparr>trace := trace w @
             concat (replicate n (map Open_file (opens (get_objects fw env))))\<rparr>)"
  by (induction n arbitrary: w) (simp_all add: consume_ok)

text \<open>
  C7. When every configured file can be opened and deserialized to its end, an iteration
  of \<^verbatim>\<open>get_objects\<close> yields the objects of the files in the order of the list of files,
  those of one file in the order of the file, and opens the files in that order. Any
  number of iterations, one after the other, from any world: each opens the files again
  and yields that same sequence.
\<close>

theorem get_objects_ordered_and_restartable:
  assumes "list_all (file_ok fw env) (env_fixtures env)"
  shows "yields (get_objects fw env) = concat (map (file_objects fw env) (env_fixtures env)) \<and>
         opens (get_objects fw env) = map (os_path_join (fixture_path env)) (env_fixtures env) \<and>
         iterate fw env n w =
           (None, replicate n (concat (map (file_objects fw env) (env_fixtures env))),
            w\<lparr>trace := trace w @
                 concat (replicate n (map Open_file
                   (map (os_path_join (fixture_path env)) (env_fixtures env))))\<rparr>)"
  using get_objects_from_ok [OF assms] iterate_ok [of fw env n w]
  by (simp add: get_objects_def)

theorem get_objects_ordered_and_restartable_witness:
  "list_all (file_ok ex_fw (ex_env False)) (env_fixtures (ex_env False)) \<and>
   env_fixtures (ex_env False) = [''eggs.json'', ''walks.yaml''] \<and>
   file_objects ex_fw (ex_env False) ''eggs.json'' = [egg] \<and>
   file_objects ex_fw (ex_env False) ''walks.yaml'' = [walk, sausage] \<and>
   yields (get_objects ex_fw (ex_env False)) = [egg, walk, sausage] \<and>
   opens (get_objects ex_fw (ex_env False)) =
     [''/srv/myapp/fixtures/eggs.json'', ''/srv/myapp/fixtures/walks.yaml''] \<and>
   iterate ex_fw (ex_env False) 2 ex_world =
     (None, [[egg, walk, sausage], [egg, walk, sausage]],
      ex_world\<lparr>trace :=
        [Open_file ''/srv/myapp/fixtures/eggs.json'', Open_file ''/srv/myapp/fixtures/walks.yaml'',
         Open_file ''/srv/myapp/fixtures/eggs.json'', Open_file ''/srv/myapp/fixtures/walks.yaml'']\<rparr>)"
proof -
  have ok: "list_all (file_ok ex_fw (ex_env False)) (env_fixtures (ex_env False))"
    by (simp add: file_ok_def ex_env_simps ex_paths ex_formats ex_fw_def)
  have fo: "file_objects ex_fw (ex_env False) ''eggs.json'' = [egg]"
    "file_objects ex_fw (ex_env False) ''walks.yaml'' = [walk, sausage]"
    by (simp_all add: file_objects_def ex_env_simps ex_paths ex_formats ex_fw_def)
  have two: "replicate 2 x = [x, x]" for x :: "'a"
    by (simp add: numeral_2_eq_2)
  show ?thesis
    using get_objects_ordered_and_restartable [OF ok, of 2 ex_world] ok
    by (simp add: fo ex_env_simps ex_paths two ex_world_def)
qed

section \<open>What unloading does to the world\<close>

lemma unload_object_events:
  "unload_object env apps obj w = (r, w') \<Longrightarrow>
     \<exists>evs. trace w' = trace w @ evs \<and> list_all is_unload_event evs"
  by (auto simp: unload_object_def emit_def delete_row_def is_unload_event_def
      split: option.splits list.splits if_splits)

lemma unload_object_frame:
  "unload_object env apps obj w = (r, w') \<Longrightarrow>
     receivers w' = receivers w \<and> next_id w' = next_id w \<and> set (db w' m) \<subseteq> set (db w m)"
  by (auto simp: unload_object_def emit_def delete_row_def
      split: option.splits list.splits if_splits dest: set_remove1_subset [THEN subsetD])

lemma unload_objects_events:
  "unload_objects env apps ss w = (r, w') \<Longrightarrow>
     \<exists>evs. trace w' = trace w @ evs \<and> list_all is_unload_event evs"
proof (induction env apps ss w rule: unload_objects.induct)
  case (4 env apps obj ss w)
  obtain r1 w1 where u: "unload_object env apps obj w = (r1, w1)"
    by (cases "unload_object env apps obj w")
  from unload_object_events [OF u] obtain e1
    where e1: "trace w1 = trace w @ e1" "list_all is_unload_event e1" by blast
  show ?case
  proof (cases r1)
    case None
    with 4 u obtain e2 where "trace w' = trace w1 @ e2" "list_all is_unload_event e2" by auto
    with e1 show ?thesis by simp
  next
    case (Some e)
    with 4 u e1 show ?thesis by auto
  qed
qed (auto simp: emit_def is_unload_event_def)

lemma unload_objects_frame:
  "unload_objects env apps ss w = (r, w') \<Longrightarrow>
     receivers w' = receivers w \<and> next_id w' = next_id w \<and> set (db w' m) \<subseteq> set (db w m)"
proof (induction env apps ss w rule: unload_objects.induct)
  case (4 env apps obj ss w)
  obtain r1 w1 where u: "unload_object env apps obj w = (r1, w1)"
    by (cases "unload_object env apps obj w")
  note f = unload_object_frame [OF u, of m]
  show ?case
  proof (cases r1)
    case None
    with 4 u have "receivers w' = receivers w1 \<and> next_id w' = next_id w1 \<and>
        set (db w' m) \<subseteq> set (db w1 m)" by auto
    with f show ?thesis by auto
  next
    case (Some e)
    with 4 u f show ?thesis by auto
  qed
qed (auto simp: emit_def)

lemma unload_events_no_reset: "list_all is_unload_event evs \<Longrightarrow> filter is_reset evs = []"
  by (induction evs) (auto simp: is_unload_event_def is_reset_def split: event.splits)

text \<open>
  C9. Whatever the fixtures, the registry and the tables, and whether it raises or not,
  \<^verbatim>\<open>unload_fixture\<close> adds to the trace only file openings, queries and deletions: no call
  of \<^verbatim>\<open>reset_db_sequences\<close>, no cursor and no SQL; and no table gains a row.
\<close>

theorem unload_fixture_never_resets_sequences:
  "(\<exists>evs. trace (snd (unload_fixture fw env apps se w)) = trace w @ evs \<and>
          list_all is_unload_event evs \<and> filter is_reset evs = []) \<and>
   set (db (snd (unload_fixture fw env apps se w)) m) \<subseteq> set (db w m)"
proof -
  obtain r w' where u: "unload_objects env apps (get_objects fw env) w = (r, w')"
    by (cases "unload_objects env apps (get_objects fw env) w")
  from unload_objects_events [OF u] obtain evs where
    e: "trace w' = trace w @ evs" "list_all is_unload_event evs" by blast
  with u unload_objects_frame [OF u, of m] unload_events_no_reset [OF e(2)]
  show ?thesis by (auto simp: unload_fixture_def)
qed

section \<open>The handler runs its load at most once\<close>

lemma calls_of_append: "calls_of h (xs @ ys) = calls_of h xs @ calls_of h ys"
  by (induction h xs rule: calls_of.induct) simp_all

lemma calls_of_unload_events: "list_all is_unload_event evs \<Longrightarrow> calls_of h evs = []"
  by (induction h evs rule: calls_of.induct) (simp_all add: is_unload_event_def)

lemma remove_receiver_subset: "set (map fst (remove_receiver h rs)) \<subseteq> set (map fst rs)"
  by (induction rs) auto

lemma remove_receiver_distinct:
  "distinct (map fst rs) \<Longrightarrow> distinct (map fst (remove_receiver h rs))"
  using remove_receiver_subset [of h] by (induction rs) auto

lemma remove_receiver_gone:
  "distinct (map fst rs) \<Longrightarrow> h \<notin> set (map fst (remove_receiver h rs))"
  by (induction rs) auto

lemma load_objects_quiet:
  "load_objects fw ss ms w = (r, ms', w') \<Longrightarrow>
     receivers w' = receivers w \<and> next_id w' = next_id w \<and>
     (\<exists>evs. trace w' = trace w @ evs \<and> calls_of h evs = [])"
  by (induction fw ss ms w rule: load_objects.induct)
     (auto simp: emit_def calls_of_append split: sum.splits)

lemma execute_all_quiet:
  "execute_all fw ss w = (r, w') \<Longrightarrow>
     receivers w' = receivers w \<and> next_id w' = next_id w \<and>
     (\<exists>evs. trace w' = trace w @ evs \<and> calls_of h evs = [])"
  by (induction fw ss w rule: execute_all.induct)
     (auto simp: emit_def calls_of_append split: if_splits)

lemma reset_db_sequences_quiet:
  assumes "reset_db_sequences fw ms w = (r, w')"
  shows "receivers w' = receivers w \<and> next_id w' = next_id w \<and>
     (\<exists>evs. trace w' = trace w @ evs \<and> calls_of h evs = [])"
proof (cases "ms = {}")
  case True
  with assms show ?thesis by (simp add: reset_db_sequences_def)
next
  case False
  with assms obtain w1 where
    e: "execute_all fw (sequence_reset_sql fw ms) (emit Cursor_open w) = (r, w1)"
    and w': "w' = emit Cursor_close w1"
    by (auto simp: reset_db_sequences_def split: prod.splits)
  from execute_all_quiet [OF e, of h] obtain evs where
    "receivers w1 = receivers w" "next_id w1 = next_id w"
    "trace w1 = trace w @ [Cursor_open] @ evs" "calls_of h evs = []"
    by (auto simp: emit_def)
  then show ?thesis
    by (simp add: w' emit_def calls_of_append)
qed

lemma signal_handler_quiet:
  assumes "signal_handler fw env i cfg sender w = (r, w')"
  shows "next_id w' = next_id w \<and>
     receivers w' =
       (if r = None \<and> label sender = ''django_migration_fixture''
        then remove_receiver i (receivers w) else receivers w) \<and>
     (\<exists>evs. trace w' = trace w @ evs \<and> calls_of h evs = [])"
proof (cases "label sender = ''django_migration_fixture'' \<and> label cfg = ''django_migration_fixture''")
  case False
  with assms show ?thesis by (auto simp: signal_handler_def split: if_splits)
next
  case True
  obtain r1 ms w1 where l: "load_objects fw (get_objects fw env) {} w = (r1, ms, w1)"
    by (cases "load_objects fw (get_objects fw env) {} w")
  from load_objects_quiet [OF l, of h] obtain e1 where
    q1: "receivers w1 = receivers w" "next_id w1 = next_id w"
      "trace w1 = trace w @ e1" "calls_of h e1 = []" by blast
  show ?thesis
  proof (cases r1)
    case (Some e)
    with assms True l q1 show ?thesis by (auto simp: signal_handler_def)
  next
    case None
    obtain r2 w2 where rs: "reset_db_sequences fw ms (emit (Reset_call ms) w1) = (r2, w2)"
      by (cases "reset_db_sequences fw ms (emit (Reset_call ms) w1)")
    from reset_db_sequences_quiet [OF rs, of h] obtain e2 where
      q2: "receivers w2 = receivers w1" "next_id w2 = next_id w1"
        "trace w2 = trace w1 @ [Reset_call ms] @ e2" "calls_of h e2 = []"
      by (auto simp: emit_def)
    show ?thesis
    proof (cases r2)
      case (Some e)
      with assms True l None rs q1 q2 show ?thesis
        by (auto simp: signal_handler_def calls_of_append)
    next
      case None2: None
      with assms True l None rs have "r = None" "w' = disconnect i w2"
        by (auto simp: signal_handler_def)
      with True q1 q2 show ?thesis
        by (simp add: disconnect_def emit_def calls_of_append)
    qed
  qed
qed

lemma call_receivers_calls:
  assumes "call_receivers fw rs sender w = (r, w')"
    and "distinct (map fst (receivers w))"
  shows "next_id w' = next_id w \<and>
     distinct (map fst (receivers w')) \<and>
     set (map fst (receivers w')) \<subseteq> set (map fst (receivers w)) \<and>
     (\<exists>evs. trace w' = trace w @ evs \<and>
            length (calls_of h evs) \<le> count_list (map fst rs) h \<and>
            set (calls_of h evs) \<subseteq> {label sender}) \<and>
     (r = None \<and> label sender = ''django_migration_fixture'' \<and> h \<in> set (map fst rs) \<longrightarrow>
        h \<notin> set (map fst (receivers w')))"
  using assms
proof (induction rs arbitrary: w)
  case Nil
  then show ?case by simp
next
  case (Cons x rs)
  let ?w0 = "emit (Receiver_called (fst x) (label sender)) w"
  obtain r1 w1 where s: "signal_handler fw (snd x) (fst x) sender sender ?w0 = (r1, w1)"
    by (cases "signal_handler fw (snd x) (fst x) sender sender ?w0")
  from signal_handler_quiet [OF s, of h] obtain e1 where
    n1: "next_id w1 = next_id w" and
    r1: "receivers w1 =
           (if r1 = None \<and> label sender = ''django_migration_fixture''
            then remove_receiver (fst x) (receivers w) else receivers w)" and
    t1: "trace w1 = trace w @ [Receiver_called (fst x) (label sender)] @ e1" and
    c1: "calls_of h e1 = []"
    by (auto simp: emit_def)
  have d1: "distinct (map fst (receivers w1))"
    using Cons.prems(2) r1 by (simp add: remove_receiver_distinct)
  have s1: "set (map fst (receivers w1)) \<subseteq> set (map fst (receivers w))"
    using r1 remove_receiver_subset [of "fst x" "receivers w"] by (simp split: if_splits)
  have k1: "calls_of h ([Receiver_called (fst x) (label sender)] @ e1) =
              (if fst x = h then [label sender] else [])"
    by (simp add: c1)
  show ?case
  proof (cases r1)
    case (Some e)
    with Cons.prems(1) s have "r = Some e" "w' = w1" by simp_all
    with n1 d1 s1 t1 k1 show ?thesis by auto
  next
    case None
    with Cons.prems(1) s have rest: "call_receivers fw rs sender w1 = (r, w')" by simp
    from Cons.IH [OF rest d1] obtain e2 where
      n2: "next_id w' = next_id w1" and
      d2: "distinct (map fst (receivers w'))" and
      s2: "set (map fst (receivers w')) \<subseteq> set (map fst (receivers w1))" and
      t2: "trace w' = trace w1 @ e2" and
      l2: "length (calls_of h e2) \<le> count_list (map fst rs) h" and
      c2: "set (calls_of h e2) \<subseteq> {label sender}" and
      g2: "r = None \<and> label sender = ''django_migration_fixture'' \<and> h \<in> set (map fst rs) \<longrightarrow>
             h \<notin> set (map fst (receivers w'))"
      by blast
    have t: "trace w' = trace w @ ([Receiver_called (fst x) (label sender)] @ e1 @ e2)"
      by (simp add: t1 t2)
    have k: "calls_of h ([Receiver_called (fst x) (label sender)] @ e1 @ e2) =
               (if fst x = h then [label sender] else []) @ calls_of h e2"
      by (simp add: calls_of_append c1)
    have l: "length (calls_of h ([Receiver_called (fst x) (label sender)] @ e1 @ e2)) \<le>
               count_list (map fst (x # rs)) h"
      unfolding k using l2 by simp
    have c: "set (calls_of h ([Receiver_called (fst x) (label sender)] @ e1 @ e2)) \<subseteq>
               {label sender}"
      unfolding k using c2 by auto
    have g: "r = None \<and> label sender = ''django_migration_fixture'' \<and>
               h \<in> set (map fst (x # rs)) \<longrightarrow> h \<notin> set (map fst (receivers w'))"
    proof (intro impI)
      assume a: "r = None \<and> label sender = ''django_migration_fixture'' \<and>
                 h \<in> set (map fst (x # rs))"
      show "h \<notin> set (map fst (receivers w'))"
      proof (cases "h = fst x")
        case True
        from a None r1 have "receivers w1 = remove_receiver (fst x) (receivers w)" by simp
        with remove_receiver_gone [OF Cons.prems(2), of "fst x"] True
        have "h \<notin> set (map fst (receivers w1))" by simp
        with s2 show ?thesis by blast
      next
        case False
        with a g2 show ?thesis by auto
      qed
    qed
    have n: "next_id w' = next_id w" using n1 n2 by simp
    have ss: "set (map fst (receivers w')) \<subseteq> set (map fst (receivers w))"
      using s1 s2 by (rule order_trans [rotated])
    have ex: "\<exists>evs. trace w' = trace w @ evs \<and>
            length (calls_of h evs) \<le> count_list (map fst (x # rs)) h \<and>
            set (calls_of h evs) \<subseteq> {label sender}"
      using t l c by blast
    from n d2 ss ex g show ?thesis by (intro conjI)
  qed
qed

lemma wf_world_below:
  assumes "wf_world w" and "h \<in> set (map fst (receivers w))"
  shows "h < next_id w"
proof -
  from assms(1) have "list_all (\<lambda>i. i < next_id w) (map fst (receivers w))"
    by (simp add: wf_world_def)
  then have "\<forall>i\<in>set (map fst (receivers w)). i < next_id w"
    by (simp only: list_all_iff)
  then show ?thesis using assms(2) by (rule bspec)
qed

lemma wf_worldI:
  assumes "distinct (map fst (receivers w))"
    and "\<And>i. i \<in> set (map fst (receivers w)) \<Longrightarrow> i < next_id w"
  shows "wf_world w"
proof -
  from assms(2) have "\<forall>i\<in>set (map fst (receivers w)). i < next_id w" by (rule ballI)
  then have "list_all (\<lambda>i. i < next_id w) (map fst (receivers w))"
    by (simp only: list_all_iff)
  with assms(1) show ?thesis by (simp add: wf_world_def)
qed

lemma wf_world_shrink:
  assumes "wf_world w" and "distinct (map fst (receivers w1))"
    and "set (map fst (receivers w1)) \<subseteq> set (map fst (receivers w))"
    and "next_id w1 = next_id w"
  shows "wf_world w1"
proof (rule wf_worldI [OF assms(2)])
  fix i assume "i \<in> set (map fst (receivers w1))"
  with assms(3) have "i \<in> set (map fst (receivers w))" by (rule subsetD)
  with assms(1) have "i < next_id w" by (rule wf_world_below)
  then show "i < next_id w1" by (simp add: assms(4))
qed

lemma wf_world_fresh: "wf_world w \<Longrightarrow> next_id w \<notin> set (map fst (receivers w))"
  using wf_world_below [of w "next_id w"] by blast

lemma wf_world_forward:
  assumes wf: "wf_world w"
  shows "wf_world (w\<lparr>next_id := Suc (next_id w), receivers := receivers w @ [(next_id w, env)],
           trace := trace w @ [Connect (next_id w)]\<rparr>)"
proof (rule wf_worldI)
  show "distinct (map fst (receivers (w\<lparr>next_id := Suc (next_id w),
      receivers := receivers w @ [(next_id w, env)], trace := trace w @ [Connect (next_id w)]\<rparr>)))"
    using wf wf_world_fresh [OF wf] by (simp add: wf_world_def)
next
  fix i
  assume "i \<in> set (map fst (receivers (w\<lparr>next_id := Suc (next_id w),
      receivers := receivers w @ [(next_id w, env)], trace := trace w @ [Connect (next_id w)]\<rparr>)))"
  then have "i \<in> set (map fst (receivers w)) \<or> i = next_id w" by auto
  then have "i < Suc (next_id w)"
  proof
    assume "i \<in> set (map fst (receivers w))"
    with wf have "i < next_id w" by (rule wf_world_below)
    then show ?thesis by simp
  next
    assume "i = next_id w"
    then show ?thesis by simp
  qed
  then show "i < next_id (w\<lparr>next_id := Suc (next_id w),
      receivers := receivers w @ [(next_id w, env)], trace := trace w @ [Connect (next_id w)]\<rparr>)"
    by simp
qed

lemma live_forward:
  "\<not> live h w \<Longrightarrow>
   \<not> live h (w\<lparr>next_id := Suc (next_id w), receivers := receivers w @ [(next_id w, env)],
           trace := trace w @ [Connect (next_id w)]\<rparr>)"
  by (auto simp: live_def)

lemma quiet_step:
  assumes "trace w1 = trace w @ evs" and "calls_of h evs = []"
  shows "\<exists>evs. trace w1 = trace w @ evs \<and> length (calls_of h evs) \<le> n \<and>
           (r = None \<and> ''django_migration_fixture'' \<in> set (calls_of h evs) \<longrightarrow> Q)"
  by (rule exI [of _ evs]) (simp add: assms)

lemma perform_step:
  assumes p: "perform fw a w = (r, w1)" and wf: "wf_world w"
  shows "wf_world w1 \<and> (\<not> live h w \<longrightarrow> \<not> live h w1) \<and>
     (\<exists>evs. trace w1 = trace w @ evs \<and>
            length (calls_of h evs) \<le> count_list (map fst (receivers w)) h \<and>
            (r = None \<and> ''django_migration_fixture'' \<in> set (calls_of h evs) \<longrightarrow>
               \<not> live h w1))"
proof (cases a)
  case (Forward env cfg)
  from p Forward wf_world_fresh [OF wf] have w1:
    "w1 = w\<lparr>next_id := Suc (next_id w), receivers := receivers w @ [(next_id w, env)],
           trace := trace w @ [Connect (next_id w)]\<rparr>"
    by (simp add: load_fixture_def connect_def emit_def)
  have "wf_world w1"
    unfolding w1 using wf by (rule wf_world_forward)
  moreover have "\<not> live h w \<longrightarrow> \<not> live h w1"
    unfolding w1 using live_forward [of h w env] by blast
  moreover have "trace w1 = trace w @ [Connect (next_id w)]" "calls_of h [Connect (next_id w)] = []"
    by (simp_all add: w1)
  then have "\<exists>evs. trace w1 = trace w @ evs \<and>
            length (calls_of h evs) \<le> count_list (map fst (receivers w)) h \<and>
            (r = None \<and> ''django_migration_fixture'' \<in> set (calls_of h evs) \<longrightarrow>
               \<not> live h w1)"
    by (rule quiet_step)
  ultimately show ?thesis by (intro conjI)
next
  case (Reverse env apps)
  with p have u: "unload_objects env apps (get_objects fw env) w = (r, w1)"
    by (simp add: unload_fixture_def)
  from unload_objects_frame [OF u] have f: "receivers w1 = receivers w" "next_id w1 = next_id w"
    by simp_all
  from unload_objects_events [OF u] obtain evs where
    e: "trace w1 = trace w @ evs" "list_all is_unload_event evs" by blast
  have "wf_world w1" using wf f by (simp add: wf_world_def)
  moreover have "\<not> live h w \<longrightarrow> \<not> live h w1" using f by (simp add: live_def)
  moreover have "calls_of h evs = []" using e(2) by (rule calls_of_unload_events)
  with e(1) have "\<exists>evs. trace w1 = trace w @ evs \<and>
            length (calls_of h evs) \<le> count_list (map fst (receivers w)) h \<and>
            (r = None \<and> ''django_migration_fixture'' \<in> set (calls_of h evs) \<longrightarrow>
               \<not> live h w1)"
    by (rule quiet_step)
  ultimately show ?thesis by (intro conjI)
next
  case (Post_migrate sender)
  with p have c: "call_receivers fw (receivers w) sender w = (r, w1)"
    by (simp add: send_post_migrate_def)
  from wf have d: "distinct (map fst (receivers w))" by (simp add: wf_world_def)
  from call_receivers_calls [OF c d, of h] obtain evs where
    n: "next_id w1 = next_id w" and
    d1: "distinct (map fst (receivers w1))" and
    s1: "set (map fst (receivers w1)) \<subseteq> set (map fst (receivers w))" and
    t: "trace w1 = trace w @ evs" and
    l: "length (calls_of h evs) \<le> count_list (map fst (receivers w)) h" and
    cs: "set (calls_of h evs) \<subseteq> {label sender}" and
    g: "r = None \<and> label sender = ''django_migration_fixture'' \<and>
          h \<in> set (map fst (receivers w)) \<longrightarrow> h \<notin> set (map fst (receivers w1))"
    by blast
  have wf1: "wf_world w1"
    using wf d1 s1 n by (rule wf_world_shrink)
  have nl: "\<not> live h w \<longrightarrow> \<not> live h w1"
    using s1 n by (auto simp: live_def)
  have gone: "r = None \<and> ''django_migration_fixture'' \<in> set (calls_of h evs) \<longrightarrow> \<not> live h w1"
  proof (intro impI)
    assume a: "r = None \<and> ''django_migration_fixture'' \<in> set (calls_of h evs)"
    with cs have lbl: "label sender = ''django_migration_fixture''" by auto
    from a have "0 < length (calls_of h evs)" by auto
    with l have "count_list (map fst (receivers w)) h \<noteq> 0" by linarith
    then have hin: "h \<in> set (map fst (receivers w))" by (metis count_notin)
    with a lbl g have "h \<notin> set (map fst (receivers w1))" by simp
    moreover from wf_world_below [OF wf hin] n have "h < next_id w1" by simp
    ultimately show "\<not> live h w1" by (simp add: live_def)
  qed
  from t l gone have "\<exists>evs. trace w1 = trace w @ evs \<and>
            length (calls_of h evs) \<le> count_list (map fst (receivers w)) h \<and>
            (r = None \<and> ''django_migration_fixture'' \<in> set (calls_of h evs) \<longrightarrow>
               \<not> live h w1)"
    by (intro exI [of _ evs] conjI)
  with wf1 nl show ?thesis by (intro conjI)
qed

lemma count_list_distinct_le: "distinct xs \<Longrightarrow> count_list xs x \<le> 1"
  by (induction xs) auto

lemma run_calls:
  assumes "run fw acts w = (r, w')" and "wf_world w"
  shows "wf_world w' \<and> (\<not> live h w \<longrightarrow> \<not> live h w') \<and>
     (\<exists>evs. trace w' = trace w @ evs \<and>
            count_list (calls_of h evs) ''django_migration_fixture'' \<le> 1 \<and>
            (\<not> live h w \<longrightarrow> calls_of h evs = []))"
  using assms
proof (induction acts arbitrary: w)
  case Nil
  then show ?case by simp
next
  case (Cons a acts)
  obtain r1 w1 where p: "perform fw a w = (r1, w1)" by (cases "perform fw a w")
  from perform_step [OF p Cons.prems(2), of h] obtain e1 where
    wf1: "wf_world w1" and
    nl1: "\<not> live h w \<longrightarrow> \<not> live h w1" and
    t1: "trace w1 = trace w @ e1" and
    l1: "length (calls_of h e1) \<le> count_list (map fst (receivers w)) h" and
    g1: "r1 = None \<and> ''django_migration_fixture'' \<in> set (calls_of h e1) \<longrightarrow> \<not> live h w1"
    by blast
  from Cons.prems(2) have "distinct (map fst (receivers w))" by (simp add: wf_world_def)
  then have "count_list (map fst (receivers w)) h \<le> 1" by (rule count_list_distinct_le)
  with l1 have le1: "length (calls_of h e1) \<le> 1" by simp
  have c1: "count_list (calls_of h e1) ''django_migration_fixture'' \<le> 1"
    using le1 count_le_length [of "calls_of h e1" "''django_migration_fixture''"] by simp
  have q1: "\<not> live h w \<longrightarrow> calls_of h e1 = []"
  proof
    assume "\<not> live h w"
    then have "h \<notin> set (map fst (receivers w))" by (simp add: live_def)
    then have "count_list (map fst (receivers w)) h = 0" by simp
    with l1 show "calls_of h e1 = []" by simp
  qed
  show ?case
  proof (cases r1)
    case (Some e)
    with Cons.prems(1) p have w': "w' = w1" by simp
    from t1 c1 q1 have "\<exists>evs. trace w1 = trace w @ evs \<and>
            count_list (calls_of h evs) ''django_migration_fixture'' \<le> 1 \<and>
            (\<not> live h w \<longrightarrow> calls_of h evs = [])"
      by (intro exI [of _ e1] conjI)
    with wf1 nl1 show ?thesis unfolding w' by (intro conjI)
  next
    case None
    with Cons.prems(1) p have rest: "run fw acts w1 = (r, w')" by simp
    from Cons.IH [OF rest wf1] obtain e2 where
      wf2: "wf_world w'" and
      nl2: "\<not> live h w1 \<longrightarrow> \<not> live h w'" and
      t2: "trace w' = trace w1 @ e2" and
      c2: "count_list (calls_of h e2) ''django_migration_fixture'' \<le> 1" and
      q2: "\<not> live h w1 \<longrightarrow> calls_of h e2 = []"
      by blast
    have t: "trace w' = trace w @ (e1 @ e2)" by (simp add: t1 t2)
    have c: "count_list (calls_of h (e1 @ e2)) ''django_migration_fixture'' \<le> 1"
    proof (cases "''django_migration_fixture'' \<in> set (calls_of h e1)")
      case True
      with None g1 q2 have "calls_of h e2 = []" by simp
      with c1 show ?thesis by (simp add: calls_of_append)
    next
      case False
      then have "count_list (calls_of h e1) ''django_migration_fixture'' = 0" by simp
      with c2 show ?thesis by (simp add: calls_of_append)
    qed
    have q: "\<not> live h w \<longrightarrow> calls_of h (e1 @ e2) = []"
      using q1 q2 nl1 by (simp add: calls_of_append)
    from t c q have "\<exists>evs. trace w' = trace w @ evs \<and>
            count_list (calls_of h evs) ''django_migration_fixture'' \<le> 1 \<and>
            (\<not> live h w \<longrightarrow> calls_of h evs = [])"
      by (intro exI [of _ "e1 @ e2"] conjI)
    moreover from nl1 nl2 have "\<not> live h w \<longrightarrow> \<not> live h w'" by simp
    ultimately show ?thesis using wf2 by (intro conjI)
  qed
qed

lemma new_events_append: "trace w' = trace w @ evs \<Longrightarrow> new_events w w' = evs"
  by (simp add: new_events_def)

text \<open>Every world a run reaches from a world without receivers is as required.\<close>

lemma wf_world_reachable:
  assumes "receivers w = []"
  shows "wf_world (snd (run fw acts w))"
proof -
  from assms have wf: "wf_world w" by (simp add: wf_world_def)
  obtain r w' where rn: "run fw acts w = (r, w')" by (cases "run fw acts w")
  from run_calls [OF rn wf] show ?thesis by (simp add: rn)
qed

text \<open>
  C4. In a run of the process from a world as above (forward and reverse migrations and
  \<^verbatim>\<open>post_migrate\<close> signals for any applications, ended by the first exception), a handler
  is called with the sender \<^verbatim>\<open>django_migration_fixture\<close>, that is, runs its load logic, at
  most once. A connected handler whose load logic has run and returned is no longer
  connected, and no run from there calls it again, for any sender.
\<close>

theorem handler_loads_at_most_once:
  assumes "wf_world w"
  shows "count_list (calls_of h (new_events w (snd (run fw acts w))))
           ''django_migration_fixture'' \<le> 1 \<and>
         (h \<in> set (map fst (receivers w)) \<and> label sender = ''django_migration_fixture'' \<and>
          signal_handler fw env h cfg sender w = (None, w1) \<longrightarrow>
            h \<notin> set (map fst (receivers w1)) \<and>
            calls_of h (new_events w1 (snd (run fw acts' w1))) = [])"
proof (intro conjI impI)
  obtain r w' where rn: "run fw acts w = (r, w')" by (cases "run fw acts w")
  from run_calls [OF rn assms, of h] obtain evs where
    "trace w' = trace w @ evs" "count_list (calls_of h evs) ''django_migration_fixture'' \<le> 1"
    by blast
  then show "count_list (calls_of h (new_events w (snd (run fw acts w))))
           ''django_migration_fixture'' \<le> 1"
    by (simp add: rn new_events_append)
next
  assume a: "h \<in> set (map fst (receivers w)) \<and> label sender = ''django_migration_fixture'' \<and>
          signal_handler fw env h cfg sender w = (None, w1)"
  then have s: "signal_handler fw env h cfg sender w = (None, w1)" by simp
  from signal_handler_quiet [OF s, of h] a have
    n: "next_id w1 = next_id w" and rc: "receivers w1 = remove_receiver h (receivers w)"
    by simp_all
  from assms have d: "distinct (map fst (receivers w))" by (simp add: wf_world_def)
  show gone: "h \<notin> set (map fst (receivers w1))"
    unfolding rc by (rule remove_receiver_gone [OF d])
  have wf1: "wf_world w1"
    using assms remove_receiver_distinct [OF d, of h] remove_receiver_subset [of h "receivers w"] n
    unfolding rc [symmetric] by (rule wf_world_shrink)
  from a wf_world_below [OF assms] have "h < next_id w" by simp
  with gone n have nl: "\<not> live h w1" by (simp add: live_def)
  obtain r w' where rn: "run fw acts' w1 = (r, w')" by (cases "run fw acts' w1")
  from run_calls [OF rn wf1, of h] nl obtain evs where
    "trace w' = trace w1 @ evs" "calls_of h evs = []"
    by blast
  then show "calls_of h (new_events w1 (snd (run fw acts' w1))) = []"
    by (simp add: rn new_events_append)
qed

lemma ex_subscribed_is_load_fixture:
  "load_fixture (ex_env False) myapp_config () ex_world = (None, ex_subscribed)"
  by (simp add: load_fixture_def connect_def emit_def ex_world_def ex_subscribed_def)

lemma ex_handler_general:
  assumes "db w = (\<lambda>m. [])"
  shows "signal_handler ex_fw (ex_env r) h dmf dmf w =
     (None, w\<lparr>db := (\<lambda>m. [])((''myapp'', ''Egg'') := [attrs egg],
                 (''myapp'', ''Walk'') := [attrs walk],
                 (''myapp'', ''Sausage'') := [attrs sausage]),
       receivers := remove_receiver h (receivers w),
       trace := trace w @ [Open_file ''/srv/myapp/fixtures/eggs.json'', Save egg,
               Open_file ''/srv/myapp/fixtures/walks.yaml'', Save walk, Save sausage,
               Reset_call {(''myapp'', ''Egg''), (''myapp'', ''Walk''), (''myapp'', ''Sausage'')},
               Cursor_open, Execute ''reset egg'', Cursor_close, Disconnect h]\<rparr>)"
  using ex_load_objects [OF assms, of r]
  by (simp add: signal_handler_def dmf_def reset_db_sequences_def ex_fw_simps emit_def
      disconnect_def)

lemma ex_subscribed_handler:
  "signal_handler ex_fw (ex_env False) 0 dmf dmf ex_subscribed =
     (None, ex_loaded\<lparr>next_id := 1, trace := Connect 0 # trace ex_loaded\<rparr>)"
  using ex_handler_general [of ex_subscribed False 0]
  by (simp add: ex_subscribed_def ex_loaded_def)

lemma ex_run_three_signals:
  "run ex_fw [Post_migrate myapp_config, Post_migrate dmf, Post_migrate dmf] ex_subscribed =
     (None, ex_loaded\<lparr>next_id := Suc 0,
        trace := Connect 0 # Receiver_called 0 ''myapp'' #
                 Receiver_called 0 ''django_migration_fixture'' # trace ex_loaded\<rparr>)"
proof -
  have a: "send_post_migrate ex_fw myapp_config ex_subscribed =
      (None, emit (Receiver_called 0 ''myapp'') ex_subscribed)"
    by (simp add: send_post_migrate_def ex_subscribed_def signal_handler_def myapp_config_def)
  have b: "signal_handler ex_fw (ex_env False) 0 dmf dmf
       (emit (Receiver_called 0 (label dmf)) (emit (Receiver_called 0 ''myapp'') ex_subscribed)) =
     (None, ex_loaded\<lparr>next_id := Suc 0,
        trace := Connect 0 # Receiver_called 0 ''myapp'' #
                 Receiver_called 0 ''django_migration_fixture'' # trace ex_loaded\<rparr>)"
    using ex_handler_general
      [of "emit (Receiver_called 0 (label dmf)) (emit (Receiver_called 0 ''myapp'') ex_subscribed)"
          False 0]
    by (simp add: ex_subscribed_def ex_loaded_def emit_def dmf_def)
  have r: "receivers (emit (Receiver_called 0 ''myapp'') ex_subscribed) = [(0, ex_env False)]"
    by (simp add: emit_def ex_subscribed_def)
  have c: "send_post_migrate ex_fw dmf (emit (Receiver_called 0 ''myapp'') ex_subscribed) =
     (None, ex_loaded\<lparr>next_id := Suc 0,
        trace := Connect 0 # Receiver_called 0 ''myapp'' #
                 Receiver_called 0 ''django_migration_fixture'' # trace ex_loaded\<rparr>)"
    by (simp add: send_post_migrate_def r b)
  have d: "send_post_migrate ex_fw dmf (ex_loaded\<lparr>next_id := Suc 0,
        trace := Connect 0 # Receiver_called 0 ''myapp'' #
                 Receiver_called 0 ''django_migration_fixture'' # trace ex_loaded\<rparr>) =
     (None, ex_loaded\<lparr>next_id := Suc 0,
        trace := Connect 0 # Receiver_called 0 ''myapp'' #
                 Receiver_called 0 ''django_migration_fixture'' # trace ex_loaded\<rparr>)"
    by (simp add: send_post_migrate_def ex_loaded_def)
  show ?thesis by (simp add: a c d)
qed

theorem handler_loads_at_most_once_witness:
  "wf_world ex_subscribed \<and>
   calls_of 0 (new_events ex_subscribed
     (snd (run ex_fw [Post_migrate myapp_config, Post_migrate dmf, Post_migrate dmf]
        ex_subscribed))) = [''myapp'', ''django_migration_fixture''] \<and>
   count_list (calls_of 0 (new_events ex_subscribed
     (snd (run ex_fw [Post_migrate myapp_config, Post_migrate dmf, Post_migrate dmf]
        ex_subscribed)))) ''django_migration_fixture'' \<le> 1 \<and>
   0 \<in> set (map fst (receivers ex_subscribed)) \<and>
   label dmf = ''django_migration_fixture'' \<and>
   signal_handler ex_fw (ex_env False) 0 dmf dmf ex_subscribed =
     (None, ex_loaded\<lparr>next_id := 1, trace := Connect 0 # trace ex_loaded\<rparr>) \<and>
   0 \<notin> set (map fst (receivers (ex_loaded\<lparr>next_id := 1, trace := Connect 0 # trace ex_loaded\<rparr>))) \<and>
   calls_of 0 (new_events (ex_loaded\<lparr>next_id := 1, trace := Connect 0 # trace ex_loaded\<rparr>)
     (snd (run ex_fw [Post_migrate dmf, Post_migrate myapp_config]
        (ex_loaded\<lparr>next_id := 1, trace := Connect 0 # trace ex_loaded\<rparr>)))) = []"
proof -
  have wf: "wf_world ex_subscribed" by (simp add: wf_world_def ex_subscribed_def)
  have l: "label dmf = ''django_migration_fixture''" by (simp add: dmf_def)
  have m: "0 \<in> set (map fst (receivers ex_subscribed))" by (simp add: ex_subscribed_def)
  have c: "calls_of 0 (new_events ex_subscribed
     (snd (run ex_fw [Post_migrate myapp_config, Post_migrate dmf, Post_migrate dmf]
        ex_subscribed))) = [''myapp'', ''django_migration_fixture'']"
    by (simp only: ex_run_three_signals) (simp add: new_events_def ex_subscribed_def ex_loaded_def)
  show ?thesis
    using handler_loads_at_most_once [OF wf, of 0 ex_fw
        "[Post_migrate myapp_config, Post_migrate dmf, Post_migrate dmf]" dmf "ex_env False" dmf
        "ex_loaded\<lparr>next_id := 1, trace := Connect 0 # trace ex_loaded\<rparr>"
        "[Post_migrate dmf, Post_migrate myapp_config]"]
      wf l m c ex_subscribed_handler
    by (simp del: run.simps)
qed

end
